theory Spec2Isabelle
  imports Complex_Main "HOL-Library.Sublist"
begin

section \<open>Data model: cells, tables, errors\<close>

text \<open>
  A pandas DataFrame read by \<open>read_uploaded_file\<close> has \<open>dtype=object\<close>: every cell is a
  Python object. The cells modelled here are text (\<open>str\<close>), integers (\<open>int\<close>, as the
  literal \<open>1\<close> of \<open>RecordStatusId\<close>) and the float NaN that pandas uses for a missing
  value. A table is its list of column names and its rows, each row a list of cells aligned
  with the column names. Characters are the 256 code points of \<open>char\<close>.
\<close>

datatype cell = Text string | IntVal int | NaN

record table =
  columns :: "string list"
  rows :: "cell list list"

datatype error = ValueError string | KeyError string

text \<open>A table is well formed when its column names are unique and every row has one cell
  per column.\<close>

definition wf_table :: "table \<Rightarrow> bool" where
  "wf_table t = (distinct (columns t) \<and> list_all (\<lambda>r. length r = length (columns t)) (rows t))"

definition STANDARD_HEADERS :: "string list" where
  "STANDARD_HEADERS =
     [''Supplier'', ''ItemCode'', ''Description'', ''PurchasePrice'', ''SalesPrice'',
      ''SV_ManufacturerId'', ''ListCategory'', ''MarinaLocationId'', ''AdditionDatetime'']"

definition required_catalog_cols :: "string list" where
  "required_catalog_cols = [''ItemCode'', ''PurchasePrice'', ''SalesPrice'']"

definition NEW_ITEMS_HEADERS :: "string list" where
  "NEW_ITEMS_HEADERS =
     [''Id'', ''Supplier'', ''ItemCode'', ''Description'', ''PurchasePrice'', ''SalesPrice'',
      ''SV_ManufacturerId'', ''ListCategory'', ''RecordStatusId'', ''MarinaLocationId'',
      ''AdditionDatetime'', ''ItemMaster_Id'', ''AspNetUser_Id'', ''SupersededItemCode'']"

section \<open>Python string operations\<close>

text \<open>\<open>str.strip()\<close> removes leading and trailing whitespace; within the code points of
  \<open>char\<close>, Python's \<open>str.isspace\<close> holds of 9 to 13, 28 to 32, 133 and 160.\<close>

definition is_space :: "char \<Rightarrow> bool" where
  "is_space c = (c \<in> set [CHR 0x09, CHR 0x0A, CHR 0x0B, CHR 0x0C, CHR 0x0D, CHR 0x1C,
                            CHR 0x1D, CHR 0x1E, CHR 0x1F, CHR 0x20, CHR 0x85, CHR 0xA0])"

definition strip :: "string \<Rightarrow> string" where
  "strip s = rev (dropWhile is_space (rev (dropWhile is_space s)))"

fun join :: "string \<Rightarrow> string list \<Rightarrow> string" where
  "join sep [] = []"
| "join sep [x] = x"
| "join sep (x # y # ys) = x @ sep @ join sep (y # ys)"

fun nat_digits :: "nat \<Rightarrow> string" where
  "nat_digits n =
     (if n < 10 then [char_of (48 + n)]
      else nat_digits (n div 10) @ [char_of (48 + n mod 10)])"

declare nat_digits.simps [simp del]

definition str_int :: "int \<Rightarrow> string" where
  "str_int i = (if i < 0 then CHR ''-'' # nat_digits (nat (- i)) else nat_digits (nat i))"

text \<open>\<open>astype(str)\<close> on one cell: Python's \<open>str\<close> of the object.\<close>

fun astype_str :: "cell \<Rightarrow> string" where
  "astype_str (Text s) = s"
| "astype_str (IntVal i) = str_int i"
| "astype_str NaN = ''nan''"

section \<open>DataFrame operations used by the program\<close>

text \<open>\<open>columns.get_loc\<close>: the position of a column name.\<close>

fun get_loc :: "string \<Rightarrow> string list \<Rightarrow> nat" where
  "get_loc c [] = 0"
| "get_loc c (x # xs) = (if x = c then 0 else Suc (get_loc c xs))"

text \<open>\<open>df[c]\<close> for a column that exists: the cells of the column, in row order.\<close>

definition col_values :: "table \<Rightarrow> string \<Rightarrow> cell list" where
  "col_values t c = map (\<lambda>r. r ! get_loc c (columns t)) (rows t)"

text \<open>\<open>df[c] = series\<close> for a column that exists: the column keeps its position.\<close>

definition set_col :: "table \<Rightarrow> string \<Rightarrow> cell list \<Rightarrow> table" where
  "set_col t c vs = t\<lparr>rows := map (\<lambda>(r, v). r[get_loc c (columns t) := v]) (zip (rows t) vs)\<rparr>"

text \<open>\<open>drop_duplicates(subset=[c], keep="last")\<close>: a row stays when no later row has the
  same value in the key position.\<close>

fun keep_last :: "nat \<Rightarrow> cell list list \<Rightarrow> cell list list" where
  "keep_last i [] = []"
| "keep_last i (r # rs) =
     (if r ! i \<in> set (map (\<lambda>x. x ! i) rs) then keep_last i rs else r # keep_last i rs)"

definition drop_duplicates :: "table \<Rightarrow> string \<Rightarrow> table" where
  "drop_duplicates t c = t\<lparr>rows := keep_last (get_loc c (columns t)) (rows t)\<rparr>"

text \<open>A frame whose row labels are the cells of a key column (\<open>set_index\<close>). With
  \<open>drop=True\<close> (the default) the key column leaves the frame.\<close>

record indexed =
  idx :: "cell list"
  frame :: table

definition drop_at :: "nat \<Rightarrow> 'a list \<Rightarrow> 'a list" where
  "drop_at i xs = take i xs @ drop (Suc i) xs"

definition set_index :: "string \<Rightarrow> bool \<Rightarrow> table \<Rightarrow> indexed" where
  "set_index c dropcol t =
     \<lparr>idx = col_values t c,
      frame = (if dropcol
               then \<lparr>columns = drop_at (get_loc c (columns t)) (columns t),
                     rows = map (drop_at (get_loc c (columns t))) (rows t)\<rparr>
               else t)\<rparr>"

text \<open>\<open>Index.intersection(other, sort=False)\<close> and \<open>Index.difference(other, sort=False)\<close>
  on indexes without duplicates: the labels of the left index, in its order.\<close>

definition intersection :: "cell list \<Rightarrow> cell list \<Rightarrow> cell list" where
  "intersection xs ys = filter (\<lambda>k. k \<in> set ys) xs"

definition difference :: "cell list \<Rightarrow> cell list \<Rightarrow> cell list" where
  "difference xs ys = filter (\<lambda>k. k \<notin> set ys) xs"

text \<open>\<open>lookup.loc[k]\<close> on a frame with unique labels: the row labelled \<open>k\<close>.\<close>

fun loc_row :: "cell list \<Rightarrow> cell list list \<Rightarrow> cell \<Rightarrow> cell list" where
  "loc_row [] rs k = []"
| "loc_row (l # ls) [] k = []"
| "loc_row (l # ls) (r # rs) k = (if l = k then r else loc_row ls rs k)"

text \<open>\<open>lookup.loc[codes, c]\<close>: the cells of column \<open>c\<close> in the rows labelled by the codes,
  in the order of the codes.\<close>

definition loc_col :: "indexed \<Rightarrow> cell list \<Rightarrow> string \<Rightarrow> cell list" where
  "loc_col ix codes c =
     map (\<lambda>k. loc_row (idx ix) (rows (frame ix)) k ! get_loc c (columns (frame ix))) codes"

text \<open>\<open>lookup.loc[codes]\<close>: the rows labelled by the codes, as a frame with these labels.\<close>

definition loc_rows :: "indexed \<Rightarrow> cell list \<Rightarrow> indexed" where
  "loc_rows ix codes =
     \<lparr>idx = codes,
      frame = \<lparr>columns = columns (frame ix),
               rows = map (loc_row (idx ix) (rows (frame ix))) codes\<rparr>\<rparr>"

text \<open>\<open>reset_index()\<close>: the labels come back as the first column, under the name of the
  index; \<open>reset_index(drop=True)\<close> forgets them.\<close>

definition reset_index :: "string \<Rightarrow> indexed \<Rightarrow> table" where
  "reset_index name ix =
     \<lparr>columns = name # columns (frame ix),
      rows = map (\<lambda>(k, r). k # r) (zip (idx ix) (rows (frame ix)))\<rparr>"

definition reset_index_drop :: "indexed \<Rightarrow> table" where
  "reset_index_drop ix = frame ix"

text \<open>\<open>indexed.loc[codes, c] = series\<close>, where the labels of \<open>indexed\<close> may repeat and the
  series is labelled by the codes: pandas selects every row whose label is one of the codes
  and reindexes the series by the labels of the selected rows, so each selected row receives
  the value the series holds for its label.\<close>

definition loc_assign :: "indexed \<Rightarrow> cell list \<Rightarrow> string \<Rightarrow> cell list \<Rightarrow> indexed" where
  "loc_assign ix codes c series =
     ix\<lparr>frame := (frame ix)\<lparr>rows :=
        map (\<lambda>(k, r). if k \<in> set codes
                       then r[get_loc c (columns (frame ix)) := loc_row codes (map (\<lambda>v. [v]) series) k ! 0]
                       else r)
            (zip (idx ix) (rows (frame ix)))\<rparr>\<rparr>"

text \<open>\<open>reindex(columns=cols)\<close>: the named columns in the given order; a name the frame does
  not have gives a column of NaN.\<close>

definition reindex :: "string list \<Rightarrow> table \<Rightarrow> table" where
  "reindex cols t =
     \<lparr>columns = cols,
      rows = map (\<lambda>r. map (\<lambda>c. if c \<in> set (columns t) then r ! get_loc c (columns t) else NaN) cols)
                 (rows t)\<rparr>"

text \<open>\<open>df.get(c, "")\<close> inside the \<open>DataFrame\<close> constructor: the column, or the default
  broadcast to every row.\<close>

definition get_or_blank :: "table \<Rightarrow> string \<Rightarrow> cell list" where
  "get_or_blank t c =
     (if c \<in> set (columns t) then col_values t c else replicate (length (rows t)) (Text ''''))"

text \<open>\<open>pd.DataFrame(dict)\<close> from columns of equal length \<open>n\<close>, in the order of the dict.\<close>

definition dataframe :: "(string \<times> cell list) list \<Rightarrow> nat \<Rightarrow> table" where
  "dataframe out n =
     \<lparr>columns = map fst out, rows = map (\<lambda>i. map (\<lambda>(c, vs). vs ! i) out) [0..<n]\<rparr>"

definition empty_dataframe :: table where
  "empty_dataframe = \<lparr>columns = [], rows = []\<rparr>"

section \<open>The helpers of app.py\<close>

definition normalize_itemcode :: "cell list \<Rightarrow> cell list" where
  "normalize_itemcode series = map (\<lambda>c. Text (strip (astype_str c))) series"

text \<open>
  \<open>to_num\<close>. Its last step, \<open>pd.to_numeric(..., errors="coerce")\<close>, is pandas' own and is
  a parameter of the model, in four parts. pandas parses each text (\<open>parse\<close>: a number, or
  \<open>None\<close>, NaN, for text that is not a number); it then gives the whole column one dtype,
  which depends on all the parsed cells of the column (\<open>dtype\<close>: \<open>int64\<close> when every cell is
  an integer, \<open>float64\<close> otherwise), and holds every number of the column in that dtype
  (\<open>cast\<close>: an integer in a \<open>float64\<close> column is rounded). So what a cell becomes depends on
  the other cells of its column, whether it is NaN does not. Two numbers held in their
  columns' dtypes are compared by \<open>differ\<close>.
\<close>

record ('n, 'd, 'm) numeric =
  parse :: "string \<Rightarrow> 'n option"
  dtype :: "'n option list \<Rightarrow> 'd"
  cast :: "'d \<Rightarrow> 'n \<Rightarrow> 'm"
  differ :: "'m \<Rightarrow> 'm \<Rightarrow> bool"

text \<open>The steps of \<open>to_num\<close> before \<open>pd.to_numeric\<close> and the parse, on one cell.\<close>

definition to_num_cell :: "(string \<Rightarrow> 'n option) \<Rightarrow> cell \<Rightarrow> 'n option" where
  "to_num_cell to_numeric c =
     (let s = strip (filter (\<lambda>ch. ch \<noteq> CHR '','') (astype_str c))
      in if s = '''' \<or> s = ''nan'' \<or> s = ''None'' then None else to_numeric s)"

definition to_num :: "('n, 'd, 'm) numeric \<Rightarrow> cell list \<Rightarrow> 'm option list" where
  "to_num P series =
     (let parsed = map (to_num_cell (parse P)) series;
          d = dtype P parsed
      in map (map_option (cast P d)) parsed)"

text \<open>\<open>Series.ne\<close> on one pair of values: NaN differs from everything, itself
  included.\<close>

definition ne :: "('m \<Rightarrow> 'm \<Rightarrow> bool) \<Rightarrow> 'm option \<Rightarrow> 'm option \<Rightarrow> bool" where
  "ne differs a b = (case (a, b) of (Some x, Some y) \<Rightarrow> differs x y | _ \<Rightarrow> True)"

section \<open>build_df_mapped\<close>

text \<open>The loop over \<open>STANDARD_HEADERS\<close> that fills the dict \<open>out\<close>; \<open>df_source[src_col]\<close>
  raises \<open>KeyError\<close> when the source has no such column.\<close>

definition mapped_series :: "table \<Rightarrow> (string \<rightharpoonup> string) \<Rightarrow> string \<Rightarrow> error + cell list" where
  "mapped_series df_source mapping field =
     (let src_col = (case mapping field of None \<Rightarrow> ''(not mapped)'' | Some c \<Rightarrow> c)
      in if src_col = '''' \<or> src_col = ''(not mapped)''
         then Inr (replicate (length (rows df_source)) (Text ''''))
         else if src_col \<in> set (columns df_source) then Inr (col_values df_source src_col)
         else Inl (KeyError src_col))"

fun build_out ::
  "table \<Rightarrow> (string \<rightharpoonup> string) \<Rightarrow> string list \<Rightarrow> error + (string \<times> cell list) list" where
  "build_out df_source mapping [] = Inr []"
| "build_out df_source mapping (field # rest) =
     (if field = ''MarinaLocationId'' \<or> field = ''AdditionDatetime''
      then build_out df_source mapping rest
      else (case mapped_series df_source mapping field of
              Inl e \<Rightarrow> Inl e
            | Inr vs \<Rightarrow> (case build_out df_source mapping rest of
                           Inl e \<Rightarrow> Inl e
                         | Inr out \<Rightarrow> Inr ((field, vs) # out))))"

text \<open>\<open>pd.DataFrame(out, columns=STANDARD_HEADERS)\<close>: the columns of the dict in the order
  of the given names.\<close>

definition assemble :: "(string \<times> cell list) list \<Rightarrow> string list \<Rightarrow> nat \<Rightarrow> table" where
  "assemble out cols n =
     \<lparr>columns = cols,
      rows = map (\<lambda>i. map (\<lambda>c. (case map_of out c of Some vs \<Rightarrow> vs ! i | None \<Rightarrow> NaN)) cols) [0..<n]\<rparr>"

definition assembled ::
  "table \<Rightarrow> (string \<times> cell list) list \<Rightarrow> string \<Rightarrow> string \<Rightarrow> table" where
  "assembled df_source out marina_location_id addition_dt =
     (let n = length (rows df_source)
      in assemble (out @ [(''MarinaLocationId'', replicate n (Text marina_location_id)),
                          (''AdditionDatetime'', replicate n (Text addition_dt))])
                  STANDARD_HEADERS n)"

definition drop_blank :: "table \<Rightarrow> table" where
  "drop_blank t =
     t\<lparr>rows := filter (\<lambda>r. strip (astype_str (r ! get_loc ''ItemCode'' (columns t))) \<noteq> '''')
                       (rows t)\<rparr>"

definition build_df_mapped ::
  "table \<Rightarrow> (string \<rightharpoonup> string) \<Rightarrow> string \<Rightarrow> string \<Rightarrow> error + table" where
  "build_df_mapped df_source mapping marina_location_id addition_dt =
     (case build_out df_source mapping STANDARD_HEADERS of
        Inl e \<Rightarrow> Inl e
      | Inr out \<Rightarrow>
          (let df_mapped = assembled df_source out marina_location_id addition_dt;
               df_mapped = set_col df_mapped ''ItemCode''
                             (normalize_itemcode (col_values df_mapped ''ItemCode''));
               df_mapped = drop_blank df_mapped;
               df_mapped = drop_duplicates df_mapped ''ItemCode''
           in Inr df_mapped))"

section \<open>compare_and_build_exports\<close>

definition normalized :: "table \<Rightarrow> table" where
  "normalized t = set_col t ''ItemCode'' (normalize_itemcode (col_values t ''ItemCode''))"

definition lookup :: "table \<Rightarrow> indexed" where
  "lookup t = set_index ''ItemCode'' True (drop_duplicates t ''ItemCode'')"

definition schema_message :: "string list \<Rightarrow> string" where
  "schema_message missing =
     ''Marina catalog must contain columns: '' @ join '', '' required_catalog_cols
       @ ''. Missing: '' @ join '', '' missing"

text \<open>The body of \<open>if len(both_codes) > 0\<close> up to \<open>codes_to_update\<close>.\<close>

definition needs_update ::
  "('n, 'd, 'm) numeric \<Rightarrow> indexed \<Rightarrow> indexed \<Rightarrow> cell list \<Rightarrow> bool list" where
  "needs_update P catalog_lookup mapped_lookup both_codes =
     (let catalog_pp = to_num P (loc_col catalog_lookup both_codes ''PurchasePrice'');
          catalog_sp = to_num P (loc_col catalog_lookup both_codes ''SalesPrice'');
          mapped_pp = to_num P (loc_col mapped_lookup both_codes ''PurchasePrice'');
          mapped_sp = to_num P (loc_col mapped_lookup both_codes ''SalesPrice'')
      in map (\<lambda>((cp, mp), (cs, ms)). ne (differ P) cp mp \<or> ne (differ P) cs ms)
             (zip (zip catalog_pp mapped_pp) (zip catalog_sp mapped_sp)))"

definition codes_to_update ::
  "('n, 'd, 'm) numeric \<Rightarrow> indexed \<Rightarrow> indexed \<Rightarrow> cell list \<Rightarrow> cell list" where
  "codes_to_update P catalog_lookup mapped_lookup both_codes =
     (if both_codes \<noteq> []
      then map (\<lambda>(k, b). Text (astype_str k))
               (filter snd (zip both_codes
                  (needs_update P catalog_lookup mapped_lookup both_codes)))
      else [])"

text \<open>The body of \<open>if codes_to_update\<close>.\<close>

definition apply_updates :: "table \<Rightarrow> indexed \<Rightarrow> cell list \<Rightarrow> table" where
  "apply_updates df_catalog_updated mapped_lookup codes =
     (let catalog_indexed = set_index ''ItemCode'' False df_catalog_updated;
          catalog_indexed = loc_assign catalog_indexed codes ''PurchasePrice''
                              (loc_col mapped_lookup codes ''PurchasePrice'');
          catalog_indexed = loc_assign catalog_indexed codes ''SalesPrice''
                              (loc_col mapped_lookup codes ''SalesPrice'')
      in reset_index_drop catalog_indexed)"

text \<open>The body of \<open>if len(new_codes) > 0\<close>.\<close>

definition new_items :: "indexed \<Rightarrow> cell list \<Rightarrow> table" where
  "new_items mapped_lookup new_codes =
     (let df_new = reset_index ''ItemCode'' (loc_rows mapped_lookup new_codes);
          n = length (rows df_new)
      in dataframe
           [(''Id'', replicate n (Text ''*'')),
            (''Supplier'', get_or_blank df_new ''Supplier''),
            (''ItemCode'', get_or_blank df_new ''ItemCode''),
            (''Description'', get_or_blank df_new ''Description''),
            (''PurchasePrice'', get_or_blank df_new ''PurchasePrice''),
            (''SalesPrice'', get_or_blank df_new ''SalesPrice''),
            (''SV_ManufacturerId'', get_or_blank df_new ''SV_ManufacturerId''),
            (''ListCategory'', get_or_blank df_new ''ListCategory''),
            (''RecordStatusId'', replicate n (IntVal 1)),
            (''MarinaLocationId'', get_or_blank df_new ''MarinaLocationId''),
            (''AdditionDatetime'', get_or_blank df_new ''AdditionDatetime''),
            (''ItemMaster_Id'', replicate n (Text ''NULL'')),
            (''AspNetUser_Id'', replicate n (Text ''NULL'')),
            (''SupersededItemCode'', replicate n (Text ''NULL''))]
           n)"

definition compare_and_build_exports ::
  "('n, 'd, 'm) numeric \<Rightarrow> table \<Rightarrow> table \<Rightarrow> error + (table \<times> table \<times> nat \<times> nat)" where
  "compare_and_build_exports P df_mapped df_catalog =
     (let missing = filter (\<lambda>c. c \<notin> set (columns df_catalog)) required_catalog_cols
      in if missing \<noteq> [] then Inl (ValueError (schema_message missing))
         else if ''ItemCode'' \<notin> set (columns df_mapped) then Inl (KeyError ''ItemCode'')
         else
          (let original_col_order = columns df_catalog;
               df_catalog_updated = normalized df_catalog;
               df_mapped_local = normalized df_mapped;
               catalog_lookup = lookup df_catalog_updated;
               mapped_lookup = lookup df_mapped_local;
               both_codes = intersection (idx catalog_lookup) (idx mapped_lookup);
               new_codes = difference (idx mapped_lookup) (idx catalog_lookup)
           in if both_codes \<noteq> [] \<and> ''PurchasePrice'' \<notin> set (columns (frame mapped_lookup))
              then Inl (KeyError ''PurchasePrice'')
              else if both_codes \<noteq> [] \<and> ''SalesPrice'' \<notin> set (columns (frame mapped_lookup))
              then Inl (KeyError ''SalesPrice'')
              else
               (let codes = codes_to_update P catalog_lookup mapped_lookup both_codes;
                    df_catalog_updated =
                      (if codes \<noteq> [] then apply_updates df_catalog_updated mapped_lookup codes
                       else df_catalog_updated);
                    updated_count = (if codes \<noteq> [] then length codes else 0);
                    new_items_df =
                      (if new_codes \<noteq> [] then new_items mapped_lookup new_codes
                       else empty_dataframe);
                    df_catalog_updated = reindex original_col_order df_catalog_updated
                in Inr (df_catalog_updated, new_items_df, updated_count, length new_codes))))"

section \<open>The same function over a store of DataFrame objects\<close>

text \<open>
  Python passes DataFrames by reference. To speak about what a call does to the caller's
  objects, this second model keeps DataFrames in a store (an address is a position in the
  list): \<open>copy()\<close>, \<open>reset_index\<close>, \<open>reindex\<close> and the \<open>DataFrame\<close> constructor
  allocate a new object, and a column assignment \<open>df["ItemCode"] = ...\<close> overwrites the object
  its variable points to. The frames made by \<open>drop_duplicates\<close>, \<open>set_index\<close> and
  \<open>loc\<close> are new objects that never leave the function; they are held as values.
\<close>

type_synonym store = "table list"

definition alloc :: "table \<Rightarrow> store \<Rightarrow> nat \<times> store" where
  "alloc t s = (length s, s @ [t])"

definition compare_and_build_exports_st ::
  "('n, 'd, 'm) numeric \<Rightarrow> nat \<Rightarrow> nat \<Rightarrow> store \<Rightarrow> (error + (nat \<times> nat \<times> nat \<times> nat)) \<times> store" where
  "compare_and_build_exports_st P df_mapped df_catalog s0 =
     (let missing = filter (\<lambda>c. c \<notin> set (columns (s0 ! df_catalog))) required_catalog_cols
      in if missing \<noteq> [] then (Inl (ValueError (schema_message missing)), s0)
         else
          (let (df_catalog_updated, s1) = alloc (s0 ! df_catalog) s0;
               original_col_order = columns (s1 ! df_catalog_updated);
               s2 = s1[df_catalog_updated := normalized (s1 ! df_catalog_updated)];
               (df_mapped_local, s3) = alloc (s2 ! df_mapped) s2
           in if ''ItemCode'' \<notin> set (columns (s3 ! df_mapped_local))
              then (Inl (KeyError ''ItemCode''), s3)
              else
               (let s4 = s3[df_mapped_local := normalized (s3 ! df_mapped_local)];
                    catalog_lookup = lookup (s4 ! df_catalog_updated);
                    mapped_lookup = lookup (s4 ! df_mapped_local);
                    both_codes = intersection (idx catalog_lookup) (idx mapped_lookup);
                    new_codes = difference (idx mapped_lookup) (idx catalog_lookup)
                in if both_codes \<noteq> [] \<and> ''PurchasePrice'' \<notin> set (columns (frame mapped_lookup))
                   then (Inl (KeyError ''PurchasePrice''), s4)
                   else if both_codes \<noteq> [] \<and> ''SalesPrice'' \<notin> set (columns (frame mapped_lookup))
                   then (Inl (KeyError ''SalesPrice''), s4)
                   else
                    (let codes = codes_to_update P catalog_lookup mapped_lookup both_codes;
                         (df_catalog_updated, s5) =
                           (if codes \<noteq> []
                            then alloc (apply_updates (s4 ! df_catalog_updated) mapped_lookup codes) s4
                            else (df_catalog_updated, s4));
                         updated_count = (if codes \<noteq> [] then length codes else 0);
                         (new_items_df, s6) =
                           alloc (if new_codes \<noteq> [] then new_items mapped_lookup new_codes
                                  else empty_dataframe) s5;
                         (df_catalog_updated, s7) =
                           alloc (reindex original_col_order (s6 ! df_catalog_updated)) s6
                     in (Inr (df_catalog_updated, new_items_df, updated_count, length new_codes),
                         s7)))))"

section \<open>Notions used to state the properties\<close>

text \<open>The canonical key of a row: its \<open>ItemCode\<close> cell as trimmed text.\<close>

definition key_of :: "table \<Rightarrow> cell list \<Rightarrow> cell" where
  "key_of t r = Text (strip (astype_str (r ! get_loc ''ItemCode'' (columns t))))"

definition keys :: "table \<Rightarrow> cell list" where
  "keys t = map (key_of t) (rows t)"

text \<open>The last row of a table that bears a key, and the cell of a row under a column name.\<close>

definition last_with :: "table \<Rightarrow> cell \<Rightarrow> cell list" where
  "last_with t k = last (filter (\<lambda>r. key_of t r = k) (rows t))"

definition cell_of :: "table \<Rightarrow> cell list \<Rightarrow> string \<Rightarrow> cell" where
  "cell_of t r c = r ! get_loc c (columns t)"

text \<open>The parsed price of a key: the price cell of the last row bearing it, parsed on its
  own (before pandas gives the column its dtype).\<close>

definition price :: "(string \<Rightarrow> 'n option) \<Rightarrow> table \<Rightarrow> cell \<Rightarrow> string \<Rightarrow> 'n option" where
  "price to_numeric t k c = to_num_cell to_numeric (cell_of t (last_with t k) c)"

text \<open>The keys of both tables, in the order of their last occurrence in the catalog, and
  for a list of keys the cells that the last rows bearing them have in a column.\<close>

definition shared_keys :: "table \<Rightarrow> table \<Rightarrow> cell list" where
  "shared_keys df_mapped df_catalog =
     filter (\<lambda>k. k \<in> set (keys df_mapped)) (remdups (keys df_catalog))"

definition last_cells :: "table \<Rightarrow> cell list \<Rightarrow> string \<Rightarrow> cell list" where
  "last_cells t ks c = map (\<lambda>k. cell_of t (last_with t k) c) ks"

text \<open>The difference test, stated on the tables: the price columns are the price cells of
  the last rows of the shared keys, each column parsed as a whole; a shared key is selected
  when its purchase prices or its sales prices differ.\<close>

definition differing_flags :: "('n, 'd, 'm) numeric \<Rightarrow> table \<Rightarrow> table \<Rightarrow> bool list" where
  "differing_flags P df_mapped df_catalog =
     (let ks = shared_keys df_mapped df_catalog
      in map (\<lambda>((cp, mp), (cs, ms)). ne (differ P) cp mp \<or> ne (differ P) cs ms)
           (zip (zip (to_num P (last_cells df_catalog ks ''PurchasePrice''))
                     (to_num P (last_cells df_mapped ks ''PurchasePrice'')))
                (zip (to_num P (last_cells df_catalog ks ''SalesPrice''))
                     (to_num P (last_cells df_mapped ks ''SalesPrice'')))))"

definition selected_keys :: "('n, 'd, 'm) numeric \<Rightarrow> table \<Rightarrow> table \<Rightarrow> cell list" where
  "selected_keys P df_mapped df_catalog =
     map fst (filter snd (zip (shared_keys df_mapped df_catalog)
                              (differing_flags P df_mapped df_catalog)))"

definition differing :: "('n, 'd, 'm) numeric \<Rightarrow> table \<Rightarrow> table \<Rightarrow> cell \<Rightarrow> bool" where
  "differing P df_mapped df_catalog k = (k \<in> set (selected_keys P df_mapped df_catalog))"

text \<open>The dtype pandas gives the parsed price column of the last rows of a list of keys.\<close>

definition price_dtype :: "('n, 'd, 'm) numeric \<Rightarrow> table \<Rightarrow> cell list \<Rightarrow> string \<Rightarrow> 'd" where
  "price_dtype P t ks c = dtype P (map (to_num_cell (parse P)) (last_cells t ks c))"

text \<open>What reconciliation writes into one catalog row.\<close>

definition updated_row ::
  "('n, 'd, 'm) numeric \<Rightarrow> table \<Rightarrow> table \<Rightarrow> cell list \<Rightarrow> cell list" where
  "updated_row P df_mapped df_catalog r =
     (let k = key_of df_catalog r;
          r1 = r[get_loc ''ItemCode'' (columns df_catalog) := k]
      in if differing P df_mapped df_catalog k
         then r1[get_loc ''PurchasePrice'' (columns df_catalog) :=
                   cell_of df_mapped (last_with df_mapped k) ''PurchasePrice'',
                 get_loc ''SalesPrice'' (columns df_catalog) :=
                   cell_of df_mapped (last_with df_mapped k) ''SalesPrice'']
         else r1)"

text \<open>The catalog with every row rewritten by \<open>updated_row\<close>.\<close>

definition updated_catalog :: "('n, 'd, 'm) numeric \<Rightarrow> table \<Rightarrow> table \<Rightarrow> table" where
  "updated_catalog P df_mapped df_catalog =
     \<lparr>columns = columns df_catalog,
      rows = map (updated_row P df_mapped df_catalog) (rows df_catalog)\<rparr>"

text \<open>Both tables have what the function reads: a well-formed catalog with the three required
  columns, a well-formed standardized table with \<open>ItemCode\<close> and the two prices.\<close>

definition readable :: "table \<Rightarrow> bool" where
  "readable t = (wf_table t \<and> set required_catalog_cols \<subseteq> set (columns t))"

section \<open>The numbers of the closed examples\<close>

text \<open>
  The closed examples below need \<open>pd.to_numeric\<close> on their prices. The parser reads an
  optional sign, digits and an optional fraction: text of digits only is an integer, text
  with a decimal point is a float. A column is \<open>int64\<close> when all its cells are integers and
  \<open>float64\<close> otherwise, where its integers become floats. Floats are held as exact
  rationals: this is what \<open>float64\<close> does to the integers below \<open>2^53\<close> and the short decimals
  of the examples, and it is not what it does to larger integers, which it rounds.
\<close>

datatype num = IntNum int | FloatNum rat

definition digit_of :: "char \<Rightarrow> nat option" where
  "digit_of c = map_of (zip ''0123456789'' [0..<10]) c"

fun digits_value :: "string \<Rightarrow> nat \<Rightarrow> nat option" where
  "digits_value [] acc = Some acc"
| "digits_value (c # cs) acc =
     (case digit_of c of None \<Rightarrow> None | Some d \<Rightarrow> digits_value cs (10 * acc + d))"

definition unsigned_decimal :: "string \<Rightarrow> num option" where
  "unsigned_decimal s =
     (let ip = takeWhile (\<lambda>c. c \<noteq> CHR ''.'') s;
          rest = dropWhile (\<lambda>c. c \<noteq> CHR ''.'') s;
          fp = (if rest = [] then [] else tl rest)
      in if ip @ fp = [] then None
         else (case digits_value (ip @ fp) 0 of
                 None \<Rightarrow> None
               | Some m \<Rightarrow> (if rest = [] then Some (IntNum (int m))
                            else Some (FloatNum (of_nat m / 10 ^ length fp)))))"

fun negate :: "num \<Rightarrow> num" where
  "negate (IntNum i) = IntNum (- i)"
| "negate (FloatNum q) = FloatNum (- q)"

definition decimal :: "string \<Rightarrow> num option" where
  "decimal s =
     (case s of
        CHR ''-'' # r \<Rightarrow> map_option negate (unsigned_decimal r)
      | CHR ''+'' # r \<Rightarrow> unsigned_decimal r
      | _ \<Rightarrow> unsigned_decimal s)"

fun value_of :: "num \<Rightarrow> rat" where
  "value_of (IntNum i) = of_int i"
| "value_of (FloatNum q) = q"

fun is_int_cell :: "num option \<Rightarrow> bool" where
  "is_int_cell (Some (IntNum i)) = True"
| "is_int_cell _ = False"

definition int64_column :: "num option list \<Rightarrow> bool" where
  "int64_column parsed = list_all is_int_cell parsed"

definition cast_to :: "bool \<Rightarrow> num \<Rightarrow> num" where
  "cast_to int64 x = (if int64 then x else FloatNum (value_of x))"

definition values_differ :: "num \<Rightarrow> num \<Rightarrow> bool" where
  "values_differ x y = (value_of x \<noteq> value_of y)"

definition pandas_ex :: "(num, bool, num) numeric" where
  "pandas_ex = \<lparr>parse = decimal, dtype = int64_column, cast = cast_to, differ = values_differ\<rparr>"

section \<open>Running the function twice\<close>

text \<open>Reconciling the updated catalog of a first run against the same standardized
  table.\<close>

definition second_run ::
  "('n, 'd, 'm) numeric \<Rightarrow> table \<Rightarrow> table \<Rightarrow> error + (table \<times> table \<times> nat \<times> nat)" where
  "second_run P df_mapped df_catalog =
     (case compare_and_build_exports P df_mapped df_catalog of
        Inl e \<Rightarrow> Inl e
      | Inr (df_catalog_updated, new_items_df, updated_count, new_count) \<Rightarrow>
          compare_and_build_exports P df_mapped df_catalog_updated)"

section \<open>Example tables\<close>

text \<open>A catalog in the column order \<open>C, ItemCode, A, PurchasePrice, B, SalesPrice\<close>, with
  a key that occurs twice and keys with surrounding blanks, and a standardized table with
  one key of the catalog and one new key.\<close>

definition catalog_ex :: table where
  "catalog_ex =
     \<lparr>columns = [''C'', ''ItemCode'', ''A'', ''PurchasePrice'', ''B'', ''SalesPrice''],
      rows = [[Text ''c1'', Text '' A1 '', Text ''a1'', Text ''10'', Text ''b1'', Text ''20''],
              [Text ''c2'', Text '' Z9'', Text ''a2'', Text ''1'', Text ''b2'', Text ''2''],
              [Text ''c3'', Text ''A1'', Text ''a3'', Text ''10.0'', Text ''b3'', Text ''20'']]\<rparr>"

definition standardized_ex :: table where
  "standardized_ex =
     \<lparr>columns = STANDARD_HEADERS,
      rows = [[Text ''s'', Text ''A1'', Text ''d'', Text ''10'', Text ''25'', Text '''',
               Text '''', Text ''7'', Text ''now''],
              [Text ''s'', Text ''N1'', Text ''d2'', Text ''3'', Text ''4'', Text '''',
               Text '''', Text ''7'', Text ''now'']]\<rparr>"

definition updated_ex :: table where
  "updated_ex =
     \<lparr>columns = [''C'', ''ItemCode'', ''A'', ''PurchasePrice'', ''B'', ''SalesPrice''],
      rows = [[Text ''c1'', Text ''A1'', Text ''a1'', Text ''10'', Text ''b1'', Text ''25''],
              [Text ''c2'', Text ''Z9'', Text ''a2'', Text ''1'', Text ''b2'', Text ''2''],
              [Text ''c3'', Text ''A1'', Text ''a3'', Text ''10'', Text ''b3'', Text ''25'']]\<rparr>"

definition new_items_ex :: table where
  "new_items_ex =
     \<lparr>columns = NEW_ITEMS_HEADERS,
      rows = [[Text ''*'', Text ''s'', Text ''N1'', Text ''d2'', Text ''3'', Text ''4'',
               Text '''', Text '''', IntVal 1, Text ''7'', Text ''now'', Text ''NULL'',
               Text ''NULL'', Text ''NULL'']]\<rparr>"

text \<open>The catalog row and the standardized row of the selective-update example, the key of
  the catalog row written with a leading blank.\<close>

definition catalog_a1 :: table where
  "catalog_a1 =
     \<lparr>columns = [''ItemCode'', ''PurchasePrice'', ''SalesPrice'', ''Notes''],
      rows = [[Text '' A1'', Text ''10'', Text ''20'', Text ''keep'']]\<rparr>"

definition standardized_a1 :: table where
  "standardized_a1 =
     \<lparr>columns = STANDARD_HEADERS,
      rows = [[Text ''s'', Text ''A1'', Text ''d'', Text ''10'', Text ''25'', Text '''',
               Text '''', Text ''7'', Text ''now'']]\<rparr>"

definition updated_a1 :: table where
  "updated_a1 =
     \<lparr>columns = [''ItemCode'', ''PurchasePrice'', ''SalesPrice'', ''Notes''],
      rows = [[Text ''A1'', Text ''10'', Text ''25'', Text ''keep'']]\<rparr>"

text \<open>A standardized table whose shared key has no purchase price (the field was not
  mapped), and a second, new key.\<close>

definition standardized_blank_price :: table where
  "standardized_blank_price =
     \<lparr>columns = STANDARD_HEADERS,
      rows = [[Text ''s'', Text ''A1'', Text ''d'', Text '''', Text ''25'', Text '''',
               Text '''', Text ''7'', Text ''now''],
              [Text ''s'', Text ''N1'', Text ''d2'', Text ''3'', Text ''4'', Text '''',
               Text '''', Text ''7'', Text ''now'']]\<rparr>"

definition updated_blank_price :: table where
  "updated_blank_price =
     \<lparr>columns = [''ItemCode'', ''PurchasePrice'', ''SalesPrice'', ''Notes''],
      rows = [[Text ''A1'', Text '''', Text ''25'', Text ''keep'']]\<rparr>"

text \<open>A catalog without the column \<open>SalesPrice\<close>.\<close>

definition catalog_no_sales :: table where
  "catalog_no_sales =
     \<lparr>columns = [''ItemCode'', ''PurchasePrice'', ''Notes''],
      rows = [[Text ''A1'', Text ''10'', Text ''keep'']]\<rparr>"

text \<open>A source table with a key that occurs twice and two blank keys, and the mapping of
  its columns.\<close>

definition source_ex :: table where
  "source_ex =
     \<lparr>columns = [''Code'', ''Name'', ''Cost''],
      rows = [[Text ''A1 '', Text ''old'', Text ''1''],
              [Text '' '', Text ''blank one'', Text ''2''],
              [Text ''B2'', Text ''other'', Text ''3''],
              [Text '''', Text ''blank two'', Text ''4''],
              [Text '' A1'', Text ''new'', Text ''5'']]\<rparr>"

definition mapping_ex :: "string \<rightharpoonup> string" where
  "mapping_ex =
     [''Supplier'' \<mapsto> ''(not mapped)'', ''ItemCode'' \<mapsto> ''Code'', ''Description'' \<mapsto> ''Name'',
      ''PurchasePrice'' \<mapsto> ''Cost'', ''SalesPrice'' \<mapsto> ''(not mapped)'',
      ''SV_ManufacturerId'' \<mapsto> ''(not mapped)'', ''ListCategory'' \<mapsto> ''(not mapped)'']"

definition mapped_ex :: table where
  "mapped_ex =
     \<lparr>columns = STANDARD_HEADERS,
      rows = [[Text '''', Text ''B2'', Text ''other'', Text ''3'', Text '''', Text '''',
               Text '''', Text ''7'', Text ''now''],
              [Text '''', Text ''A1'', Text ''new'', Text ''5'', Text '''', Text '''',
               Text '''', Text ''7'', Text ''now'']]\<rparr>"

text \<open>The catalog row of the selective-update example with a purchase price that is not a
  number, and what the function returns for it.\<close>

definition catalog_unpriced :: table where
  "catalog_unpriced =
     \<lparr>columns = [''ItemCode'', ''PurchasePrice'', ''SalesPrice'', ''Notes''],
      rows = [[Text ''A1'', Text ''n/a'', Text ''25'', Text ''keep'']]\<rparr>"

section \<open>Lists, positions and text\<close>

lemma get_loc_lt: "c \<in> set cols \<Longrightarrow> get_loc c cols < length cols"
  by (induction cols) auto

lemma get_loc_nth: "c \<in> set cols \<Longrightarrow> cols ! get_loc c cols = c"
  by (induction cols) auto

lemma get_loc_neq: "c \<in> set cols \<Longrightarrow> c \<noteq> c' \<Longrightarrow> get_loc c cols \<noteq> get_loc c' cols"
  by (induction cols) auto

lemma get_loc_of_nth: "distinct cols \<Longrightarrow> i < length cols \<Longrightarrow> get_loc (cols ! i) cols = i"
proof (induction cols arbitrary: i)
  case Nil
  then show ?case by simp
next
  case (Cons x xs)
  then show ?case by (cases i) auto
qed

lemma drop_at_Nil: "drop_at i [] = []"
  by (simp add: drop_at_def)

lemma drop_at_0: "drop_at 0 (x # xs) = xs"
  by (simp add: drop_at_def)

lemma drop_at_Suc: "drop_at (Suc i) (x # xs) = x # drop_at i xs"
  by (simp add: drop_at_def)

lemma set_drop_at_get_loc:
  "distinct cols \<Longrightarrow> c \<in> set cols \<Longrightarrow> set (drop_at (get_loc c cols) cols) = set cols - {c}"
  by (induction cols) (auto simp: drop_at_0 drop_at_Suc)

lemma drop_at_nth:
  "distinct cols \<Longrightarrow> c \<in> set cols \<Longrightarrow> c' \<in> set cols \<Longrightarrow> c' \<noteq> c \<Longrightarrow> length r = length cols \<Longrightarrow>
   drop_at (get_loc c cols) r ! get_loc c' (drop_at (get_loc c cols) cols) = r ! get_loc c' cols"
proof (induction cols arbitrary: r)
  case Nil
  then show ?case by simp
next
  case (Cons x xs)
  then obtain y ys where r: "r = y # ys" by (cases r) auto
  show ?case
  proof (cases "x = c")
    case True
    with Cons.prems r show ?thesis by (auto simp: drop_at_0)
  next
    case False
    with Cons r show ?thesis by (auto simp: drop_at_Suc)
  qed
qed

lemma keep_last_keys: "(\<lambda>r. r ! i) ` set (keep_last i rs) = (\<lambda>r. r ! i) ` set rs"
  by (induction rs) auto

lemma keep_last_subset: "set (keep_last i rs) \<subseteq> set rs"
  by (induction rs) auto

lemma keep_last_distinct: "distinct (map (\<lambda>r. r ! i) (keep_last i rs))"
proof (induction rs)
  case Nil
  then show ?case by simp
next
  case (Cons r rs)
  have "r ! i \<notin> (\<lambda>r. r ! i) ` set rs \<Longrightarrow> r ! i \<notin> (\<lambda>r. r ! i) ` set (keep_last i rs)"
    by (simp add: keep_last_keys)
  with Cons show ?case by auto
qed

lemma keep_last_subseq: "subseq (keep_last i rs) rs"
  by (induction rs) auto

lemma filter_keep_last:
  "k \<in> (\<lambda>r. r ! i) ` set rs \<Longrightarrow>
   filter (\<lambda>r. r ! i = k) (keep_last i rs) = [last (filter (\<lambda>r. r ! i = k) rs)]"
proof (induction rs)
  case Nil
  then show ?case by simp
next
  case (Cons r rs)
  show ?case
  proof (cases "r ! i \<in> (\<lambda>x. x ! i) ` set rs")
    case True
    with Cons.prems have k: "k \<in> (\<lambda>r. r ! i) ` set rs" by auto
    then have "filter (\<lambda>r. r ! i = k) rs \<noteq> []"
      by (auto simp: filter_empty_conv)
    with True Cons.IH [OF k] show ?thesis by simp
  next
    case False
    show ?thesis
    proof (cases "r ! i = k")
      case True
      from True False have "\<forall>x\<in>set rs. x ! i \<noteq> k"
        by blast
      then have "filter (\<lambda>r. r ! i = k) rs = []"
        by (simp add: filter_empty_conv)
      moreover from \<open>\<forall>x\<in>set rs. x ! i \<noteq> k\<close>
      have "filter (\<lambda>r. r ! i = k) (keep_last i rs) = []"
        using keep_last_subset [of i rs] by (auto simp: filter_empty_conv)
      ultimately show ?thesis using True False by simp
    next
      case neq: False
      with Cons.prems have k: "k \<in> (\<lambda>r. r ! i) ` set rs" by auto
      with neq False Cons.IH [OF k] show ?thesis by simp
    qed
  qed
qed

lemma loc_row_keep_last:
  "k \<in> (\<lambda>r. r ! i) ` set rs \<Longrightarrow>
   loc_row (map (\<lambda>r. r ! i) (keep_last i rs)) (map f (keep_last i rs)) k
     = f (last (filter (\<lambda>r. r ! i = k) rs))"
proof (induction rs)
  case Nil
  then show ?case by simp
next
  case (Cons r rs)
  show ?case
  proof (cases "r ! i \<in> (\<lambda>x. x ! i) ` set rs")
    case True
    with Cons.prems have k: "k \<in> (\<lambda>r. r ! i) ` set rs" by auto
    then have "filter (\<lambda>r. r ! i = k) rs \<noteq> []"
      by (auto simp: filter_empty_conv)
    with True Cons.IH [OF k] show ?thesis by simp
  next
    case False
    show ?thesis
    proof (cases "r ! i = k")
      case True
      from True False have "\<forall>x\<in>set rs. x ! i \<noteq> k"
        by blast
      then have "filter (\<lambda>r. r ! i = k) rs = []"
        by (simp add: filter_empty_conv)
      then show ?thesis using True False by simp
    next
      case neq: False
      with Cons.prems have k: "k \<in> (\<lambda>r. r ! i) ` set rs" by auto
      with neq False Cons.IH [OF k] show ?thesis by simp
    qed
  qed
qed

lemma strip_idem: "strip (strip s) = strip s"
  unfolding strip_def
  by (metis (no_types, lifting) ext Nil_is_rev_conv dropWhile_eq_Nil_conv
    dropWhile_eq_self_iff dropWhile_last hd_dropWhile last_rev
    rev_swap)

section \<open>Normalised keys and lookup views\<close>

lemma wf_table_row: "wf_table t \<Longrightarrow> r \<in> set (rows t) \<Longrightarrow> length r = length (columns t)"
  by (simp add: wf_table_def list_all_iff)

lemma columns_normalized: "columns (normalized t) = columns t"
  by (simp add: normalized_def set_col_def)

lemma map_update_zip:
  "map (\<lambda>(r, v). r[i := v]) (zip rs (map f (map g rs))) = map (\<lambda>r. r[i := f (g r)]) rs"
  by (induction rs) auto

lemma rows_normalized:
  "rows (normalized t) = map (\<lambda>r. r[get_loc ''ItemCode'' (columns t) := key_of t r]) (rows t)"
  unfolding normalized_def set_col_def col_values_def normalize_itemcode_def key_of_def
    map_update_zip
  by simp

lemma wf_normalized: "wf_table t \<Longrightarrow> wf_table (normalized t)"
  by (simp add: wf_table_def columns_normalized rows_normalized list_all_iff)

lemma key_cell_normalized:
  assumes "wf_table t" "''ItemCode'' \<in> set (columns t)" "r \<in> set (rows t)"
  shows "r[get_loc ''ItemCode'' (columns t) := key_of t r] ! get_loc ''ItemCode'' (columns t)
           = key_of t r"
proof -
  have "get_loc ''ItemCode'' (columns t) < length r"
    using assms by (simp add: wf_table_row get_loc_lt)
  then show ?thesis by simp
qed

lemma key_col_normalized:
  assumes "wf_table t" "''ItemCode'' \<in> set (columns t)"
  shows "map (\<lambda>r. r ! get_loc ''ItemCode'' (columns t)) (rows (normalized t)) = keys t"
  using assms by (simp add: rows_normalized keys_def key_cell_normalized)

lemma keys_normalized:
  assumes "wf_table t" "''ItemCode'' \<in> set (columns t)"
  shows "keys (normalized t) = keys t"
proof -
  have "key_of (normalized t) (r[get_loc ''ItemCode'' (columns t) := key_of t r]) = key_of t r"
    if "r \<in> set (rows t)" for r
    using key_cell_normalized [OF assms that]
    by (simp add: key_of_def columns_normalized strip_idem)
  then show ?thesis
    by (simp add: keys_def rows_normalized)
qed

lemma filter_key_normalized:
  assumes "wf_table t" "''ItemCode'' \<in> set (columns t)"
  shows "filter (\<lambda>r. r ! get_loc ''ItemCode'' (columns t) = k) (rows (normalized t))
           = map (\<lambda>r. r[get_loc ''ItemCode'' (columns t) := key_of t r])
                 (filter (\<lambda>r. key_of t r = k) (rows t))"
proof -
  have "filter ((\<lambda>r. r ! get_loc ''ItemCode'' (columns t) = k) \<circ>
                (\<lambda>r. r[get_loc ''ItemCode'' (columns t) := key_of t r])) (rows t)
          = filter (\<lambda>r. key_of t r = k) (rows t)"
    by (rule filter_cong) (simp_all add: key_cell_normalized [OF assms])
  then show ?thesis
    by (simp add: rows_normalized filter_map)
qed

lemma last_with_in_rows: "k \<in> set (keys t) \<Longrightarrow> last_with t k \<in> set (rows t)"
proof -
  assume "k \<in> set (keys t)"
  then have ne: "filter (\<lambda>r. key_of t r = k) (rows t) \<noteq> []"
    by (auto simp: keys_def filter_empty_conv)
  have "last (filter (\<lambda>r. key_of t r = k) (rows t)) \<in> set (filter (\<lambda>r. key_of t r = k) (rows t))"
    using ne by (rule last_in_set)
  then show ?thesis by (simp add: last_with_def)
qed

lemma key_of_last_with: "k \<in> set (keys t) \<Longrightarrow> key_of t (last_with t k) = k"
proof -
  assume "k \<in> set (keys t)"
  then have ne: "filter (\<lambda>r. key_of t r = k) (rows t) \<noteq> []"
    by (auto simp: keys_def filter_empty_conv)
  have "last (filter (\<lambda>r. key_of t r = k) (rows t)) \<in> set (filter (\<lambda>r. key_of t r = k) (rows t))"
    using ne by (rule last_in_set)
  then show ?thesis by (simp add: last_with_def)
qed

lemma last_filter_normalized:
  assumes "wf_table t" "''ItemCode'' \<in> set (columns t)" "k \<in> set (keys t)"
  shows "last (filter (\<lambda>r. r ! get_loc ''ItemCode'' (columns t) = k) (rows (normalized t)))
           = (last_with t k)[get_loc ''ItemCode'' (columns t) := k]"
proof -
  from assms(3) have ne: "filter (\<lambda>r. key_of t r = k) (rows t) \<noteq> []"
    by (auto simp: keys_def filter_empty_conv)
  show ?thesis
    using ne key_of_last_with [OF assms(3)]
    by (simp add: filter_key_normalized [OF assms(1,2)] last_map last_with_def)
qed

lemma idx_lookup:
  "idx (lookup t) =
     map (\<lambda>r. r ! get_loc ''ItemCode'' (columns t)) (keep_last (get_loc ''ItemCode'' (columns t)) (rows t))"
  by (simp add: lookup_def set_index_def drop_duplicates_def col_values_def)

lemma columns_lookup:
  "columns (frame (lookup t)) = drop_at (get_loc ''ItemCode'' (columns t)) (columns t)"
  by (simp add: lookup_def set_index_def drop_duplicates_def)

lemma rows_lookup:
  "rows (frame (lookup t)) =
     map (drop_at (get_loc ''ItemCode'' (columns t))) (keep_last (get_loc ''ItemCode'' (columns t)) (rows t))"
  by (simp add: lookup_def set_index_def drop_duplicates_def)

lemma set_idx_lookup:
  assumes "wf_table t" "''ItemCode'' \<in> set (columns t)"
  shows "set (idx (lookup (normalized t))) = set (keys t)"
proof -
  have "set (idx (lookup (normalized t)))
          = (\<lambda>r. r ! get_loc ''ItemCode'' (columns t)) ` set (rows (normalized t))"
    by (simp add: idx_lookup columns_normalized keep_last_keys)
  also have "\<dots> = set (map (\<lambda>r. r ! get_loc ''ItemCode'' (columns t)) (rows (normalized t)))"
    by simp
  also have "\<dots> = set (keys t)"
    by (simp only: key_col_normalized [OF assms])
  finally show ?thesis .
qed

lemma distinct_idx_lookup: "distinct (idx (lookup t))"
  by (simp add: idx_lookup keep_last_distinct)

lemma keys_are_text: "k \<in> set (keys t) \<Longrightarrow> Text (astype_str k) = k"
  by (auto simp: keys_def key_of_def)

lemma columns_lookup_mem:
  assumes "wf_table t" "''ItemCode'' \<in> set (columns t)"
  shows "c \<in> set (columns (frame (lookup (normalized t)))) \<longleftrightarrow> c \<in> set (columns t) \<and> c \<noteq> ''ItemCode''"
  using assms by (auto simp: columns_lookup columns_normalized set_drop_at_get_loc wf_table_def)

lemma lookup_cell:
  assumes wf: "wf_table t" and ic: "''ItemCode'' \<in> set (columns t)"
    and c: "c \<in> set (columns t)" "c \<noteq> ''ItemCode''" and k: "k \<in> set (keys t)"
  shows "loc_row (idx (lookup (normalized t))) (rows (frame (lookup (normalized t)))) k
           ! get_loc c (columns (frame (lookup (normalized t))))
         = cell_of t (last_with t k) c"
proof -
  let ?i = "get_loc ''ItemCode'' (columns t)"
  have kin: "k \<in> (\<lambda>r. r ! ?i) ` set (rows (normalized t))"
    using k key_col_normalized [OF wf ic] by (metis set_map)
  have len: "length (last_with t k) = length (columns t)"
    using wf last_with_in_rows [OF k] by (rule wf_table_row)
  have "loc_row (idx (lookup (normalized t))) (rows (frame (lookup (normalized t)))) k
          = drop_at ?i (last (filter (\<lambda>r. r ! ?i = k) (rows (normalized t))))"
    using loc_row_keep_last [OF kin, of "drop_at ?i"]
    by (simp add: idx_lookup rows_lookup columns_normalized)
  also have "\<dots> = drop_at ?i ((last_with t k)[?i := k])"
    by (simp only: last_filter_normalized [OF wf ic k])
  finally have row: "loc_row (idx (lookup (normalized t))) (rows (frame (lookup (normalized t)))) k
          = drop_at ?i ((last_with t k)[?i := k])" .
  have "drop_at ?i ((last_with t k)[?i := k]) ! get_loc c (drop_at ?i (columns t))
          = (last_with t k)[?i := k] ! get_loc c (columns t)"
    using wf ic c len by (intro drop_at_nth) (simp_all add: wf_table_def)
  also have "\<dots> = last_with t k ! get_loc c (columns t)"
    using get_loc_neq [OF c(1), of "''ItemCode''"] c(2) by simp
  finally show ?thesis
    by (simp add: row columns_lookup columns_normalized cell_of_def)
qed

section \<open>The keys to update\<close>

lemma keep_last_remdups: "map (\<lambda>r. r ! i) (keep_last i rs) = remdups (map (\<lambda>r. r ! i) rs)"
  by (induction rs) auto

lemma idx_lookup_remdups:
  assumes "wf_table t" "''ItemCode'' \<in> set (columns t)"
  shows "idx (lookup (normalized t)) = remdups (keys t)"
  by (simp add: idx_lookup columns_normalized keep_last_remdups key_col_normalized [OF assms])

lemma both_codes_shared:
  assumes "wf_table C" "''ItemCode'' \<in> set (columns C)"
    and "wf_table M" "''ItemCode'' \<in> set (columns M)"
  shows "intersection (idx (lookup (normalized C))) (idx (lookup (normalized M))) = shared_keys M C"
  by (simp add: intersection_def shared_keys_def idx_lookup_remdups [OF assms(1,2)]
      set_idx_lookup [OF assms(3,4)])

lemma set_shared_keys: "set (shared_keys M C) = set (keys C) \<inter> set (keys M)"
  by (auto simp: shared_keys_def)

lemma distinct_shared_keys: "distinct (shared_keys M C)"
  by (simp add: shared_keys_def)

lemma loc_col_last_cells:
  assumes wf: "wf_table t" and ic: "''ItemCode'' \<in> set (columns t)"
    and c: "c \<in> set (columns t)" "c \<noteq> ''ItemCode''" and ks: "set ks \<subseteq> set (keys t)"
  shows "loc_col (lookup (normalized t)) ks c = last_cells t ks c"
  unfolding loc_col_def last_cells_def
proof (rule map_cong)
  fix k assume "k \<in> set ks"
  with ks have k: "k \<in> set (keys t)" by blast
  show "loc_row (idx (lookup (normalized t))) (rows (frame (lookup (normalized t)))) k
          ! get_loc c (columns (frame (lookup (normalized t))))
        = cell_of t (last_with t k) c"
    by (rule lookup_cell [OF wf ic c k])
qed simp

lemma needs_update_flags:
  assumes C: "readable C" and M: "readable M"
  shows "needs_update P (lookup (normalized C)) (lookup (normalized M)) (shared_keys M C)
           = differing_flags P M C"
proof -
  from C have wfC: "wf_table C" and icC: "''ItemCode'' \<in> set (columns C)"
    and ppC: "''PurchasePrice'' \<in> set (columns C)" and spC: "''SalesPrice'' \<in> set (columns C)"
    by (simp_all add: readable_def required_catalog_cols_def)
  from M have wfM: "wf_table M" and icM: "''ItemCode'' \<in> set (columns M)"
    and ppM: "''PurchasePrice'' \<in> set (columns M)" and spM: "''SalesPrice'' \<in> set (columns M)"
    by (simp_all add: readable_def required_catalog_cols_def)
  have kC: "set (shared_keys M C) \<subseteq> set (keys C)" and kM: "set (shared_keys M C) \<subseteq> set (keys M)"
    by (simp_all add: set_shared_keys)
  have eqs: "loc_col (lookup (normalized C)) (shared_keys M C) ''PurchasePrice''
               = last_cells C (shared_keys M C) ''PurchasePrice''"
    "loc_col (lookup (normalized C)) (shared_keys M C) ''SalesPrice''
               = last_cells C (shared_keys M C) ''SalesPrice''"
    "loc_col (lookup (normalized M)) (shared_keys M C) ''PurchasePrice''
               = last_cells M (shared_keys M C) ''PurchasePrice''"
    "loc_col (lookup (normalized M)) (shared_keys M C) ''SalesPrice''
               = last_cells M (shared_keys M C) ''SalesPrice''"
    by (simp_all add: loc_col_last_cells [OF wfC icC _ _ kC] loc_col_last_cells [OF wfM icM _ _ kM]
        ppC spC ppM spM)
  show ?thesis
    unfolding needs_update_def differing_flags_def Let_def eqs ..
qed

lemma map_text_zip:
  "set ks \<subseteq> set (keys t) \<Longrightarrow>
   map (\<lambda>(k, b). Text (astype_str k)) (filter snd (zip ks fl)) = map fst (filter snd (zip ks fl))"
proof (rule map_cong)
  fix x assume ks: "set ks \<subseteq> set (keys t)" and x: "x \<in> set (filter snd (zip ks fl))"
  then have "fst x \<in> set ks" by (cases x) (auto dest: set_zip_leftD)
  with ks have "fst x \<in> set (keys t)" by blast
  then show "(case x of (k, b) \<Rightarrow> Text (astype_str k)) = fst x"
    by (cases x) (simp add: keys_are_text)
qed simp

lemma codes_to_update_filter:
  assumes C: "readable C" and M: "readable M"
  shows "codes_to_update P (lookup (normalized C)) (lookup (normalized M))
           (intersection (idx (lookup (normalized C))) (idx (lookup (normalized M))))
         = selected_keys P M C"
proof -
  from C have wfC: "wf_table C" and icC: "''ItemCode'' \<in> set (columns C)"
    by (simp_all add: readable_def required_catalog_cols_def)
  from M have wfM: "wf_table M" and icM: "''ItemCode'' \<in> set (columns M)"
    by (simp_all add: readable_def required_catalog_cols_def)
  have both: "intersection (idx (lookup (normalized C))) (idx (lookup (normalized M)))
                = shared_keys M C"
    by (rule both_codes_shared [OF wfC icC wfM icM])
  have sub: "set (shared_keys M C) \<subseteq> set (keys C)"
    by (simp add: set_shared_keys)
  show ?thesis
  proof (cases "shared_keys M C = []")
    case True
    then show ?thesis
      by (simp add: both codes_to_update_def selected_keys_def)
  next
    case False
    then show ?thesis
      unfolding both codes_to_update_def selected_keys_def needs_update_flags [OF C M]
      by (simp add: map_text_zip [OF sub])
  qed
qed

lemma set_codes:
  assumes "wf_table C" "''ItemCode'' \<in> set (columns C)"
  shows "set (selected_keys P M C) = {k. differing P M C k}"
  by (simp add: differing_def)

lemma distinct_fst_filter_zip:
  "distinct xs \<Longrightarrow> distinct (map fst (filter Q (zip xs ys)))"
proof (induction xs arbitrary: ys)
  case Nil
  then show ?case by simp
next
  case (Cons x xs)
  show ?case
  proof (cases ys)
    case Nil
    then show ?thesis by simp
  next
    case (Cons y ys')
    have "x \<notin> fst ` set (filter Q (zip xs ys'))"
      using Cons.prems by (auto dest: set_zip_leftD)
    with Cons Cons.prems Cons.IH [of ys'] show ?thesis by auto
  qed
qed

lemma distinct_selected_keys: "distinct (selected_keys P M C)"
  unfolding selected_keys_def by (rule distinct_fst_filter_zip [OF distinct_shared_keys])

lemma length_codes:
  assumes "wf_table C" "''ItemCode'' \<in> set (columns C)"
  shows "length (selected_keys P M C) = card {k. differing P M C k}"
  using distinct_selected_keys [of P M C] set_codes [OF assms, of P M]
  by (metis distinct_card)

lemma selected_subset_shared: "set (selected_keys P M C) \<subseteq> set (shared_keys M C)"
  by (auto simp: selected_keys_def dest: set_zip_leftD)

lemma differing_keys:
  "differing P M C k \<Longrightarrow> k \<in> set (keys C) \<and> k \<in> set (keys M)"
  using selected_subset_shared [of P M C] by (auto simp: differing_def set_shared_keys)

lemma length_to_num: "length (to_num P series) = length series"
  by (simp add: to_num_def Let_def)

lemma to_num_nth:
  "i < length series \<Longrightarrow>
   to_num P series ! i
     = map_option (cast P (dtype P (map (to_num_cell (parse P)) series)))
         (to_num_cell (parse P) (series ! i))"
  by (simp add: to_num_def Let_def)

lemma length_last_cells: "length (last_cells t ks c) = length ks"
  by (simp add: last_cells_def)

lemma last_cells_nth: "i < length ks \<Longrightarrow> last_cells t ks c ! i = cell_of t (last_with t (ks ! i)) c"
  by (simp add: last_cells_def)

lemma length_differing_flags: "length (differing_flags P M C) = length (shared_keys M C)"
  by (simp add: differing_flags_def Let_def length_to_num length_last_cells)

lemma differing_flags_nth:
  assumes "i < length (shared_keys M C)"
  shows "differing_flags P M C ! i
     = (ne (differ P) (to_num P (last_cells C (shared_keys M C) ''PurchasePrice'') ! i)
                      (to_num P (last_cells M (shared_keys M C) ''PurchasePrice'') ! i) \<or>
        ne (differ P) (to_num P (last_cells C (shared_keys M C) ''SalesPrice'') ! i)
                      (to_num P (last_cells M (shared_keys M C) ''SalesPrice'') ! i))"
  using assms by (simp add: differing_flags_def Let_def length_to_num length_last_cells)

lemma selected_zip_nth:
  "distinct xs \<Longrightarrow> length ys = length xs \<Longrightarrow> i < length xs \<Longrightarrow>
   xs ! i \<in> set (map fst (filter snd (zip xs ys))) \<longleftrightarrow> ys ! i"
proof (induction xs arbitrary: ys i)
  case Nil
  then show ?case by simp
next
  case (Cons x xs)
  then obtain y ys' where ys: "ys = y # ys'" by (cases ys) auto
  show ?case
  proof (cases i)
    case 0
    have "x \<notin> fst ` set (filter snd (zip xs ys'))"
      using Cons.prems(1) by (auto dest: set_zip_leftD)
    then show ?thesis using 0 ys by auto
  next
    case (Suc j)
    with Cons.prems ys have j: "j < length xs" and len: "length ys' = length xs"
      and d: "distinct xs" and nx: "xs ! j \<noteq> x"
      by auto
    from Cons.IH [OF d len j] Suc ys nx show ?thesis by auto
  qed
qed

lemma differing_nth:
  assumes "i < length (shared_keys M C)"
  shows "differing P M C (shared_keys M C ! i) \<longleftrightarrow> differing_flags P M C ! i"
  unfolding differing_def selected_keys_def
  using selected_zip_nth [OF distinct_shared_keys length_differing_flags assms] .

lemma shared_key_index:
  assumes "k \<in> set (keys C)" "k \<in> set (keys M)"
  obtains i where "i < length (shared_keys M C)" "shared_keys M C ! i = k"
proof -
  from assms have "k \<in> set (shared_keys M C)" by (simp add: set_shared_keys)
  then show ?thesis using that by (auto simp: in_set_conv_nth)
qed

section \<open>Writing the prices\<close>

lemma loc_row_singletons:
  "k \<in> set codes \<Longrightarrow> loc_row codes (map ((\<lambda>v. [v]) \<circ> g) codes) k ! 0 = g k"
  by (induction codes) auto

lemma rows_loc_assign:
  "rows (frame (loc_assign ix codes c (map g codes))) =
     map (\<lambda>(k, r). if k \<in> set codes then r[get_loc c (columns (frame ix)) := g k] else r)
         (zip (idx ix) (rows (frame ix)))"
  by (auto simp: loc_assign_def loc_row_singletons)

lemma columns_loc_assign: "columns (frame (loc_assign ix codes c vs)) = columns (frame ix)"
  by (simp add: loc_assign_def)

lemma idx_loc_assign: "idx (loc_assign ix codes c vs) = idx ix"
  by (simp add: loc_assign_def)

lemma map2_key:
  "map (\<lambda>(k, r). F k r) (zip (map f rs) (map h rs)) = map (\<lambda>r. F (f r) (h r)) rs"
  by (induction rs) auto

lemma map2_key_id:
  "map (\<lambda>(k, r). F k r) (zip (map f rs) rs) = map (\<lambda>r. F (f r) r) rs"
  by (induction rs) auto

lemma columns_apply_updates: "columns (apply_updates t ml codes) = columns t"
  by (simp add: apply_updates_def reset_index_drop_def Let_def columns_loc_assign set_index_def)

lemma rows_apply_updates:
  "rows (apply_updates t ml codes) =
     map (\<lambda>r. if r ! get_loc ''ItemCode'' (columns t) \<in> set codes
               then r[get_loc ''PurchasePrice'' (columns t) :=
                        loc_row (idx ml) (rows (frame ml)) (r ! get_loc ''ItemCode'' (columns t))
                          ! get_loc ''PurchasePrice'' (columns (frame ml)),
                      get_loc ''SalesPrice'' (columns t) :=
                        loc_row (idx ml) (rows (frame ml)) (r ! get_loc ''ItemCode'' (columns t))
                          ! get_loc ''SalesPrice'' (columns (frame ml))]
               else r)
         (rows t)"
proof -
  let ?ix = "set_index ''ItemCode'' False t"
  let ?g = "\<lambda>c k. loc_row (idx ml) (rows (frame ml)) k ! get_loc c (columns (frame ml))"
  let ?i = "get_loc ''ItemCode'' (columns t)"
  have ix: "idx ?ix = map (\<lambda>r. r ! ?i) (rows t)" "frame ?ix = t"
    by (simp_all add: set_index_def col_values_def)
  let ?a1 = "loc_assign ?ix codes ''PurchasePrice'' (map (?g ''PurchasePrice'') codes)"
  have r1: "rows (frame ?a1) =
      map (\<lambda>r. if r ! ?i \<in> set codes
                then r[get_loc ''PurchasePrice'' (columns t) := ?g ''PurchasePrice'' (r ! ?i)] else r) (rows t)"
    unfolding rows_loc_assign ix by (simp add: map2_key_id)
  have i1: "idx ?a1 = map (\<lambda>r. r ! ?i) (rows t)" and c1: "columns (frame ?a1) = columns t"
    by (simp_all add: idx_loc_assign columns_loc_assign ix)
  let ?h = "\<lambda>r. if r ! ?i \<in> set codes
                then r[get_loc ''PurchasePrice'' (columns t) := ?g ''PurchasePrice'' (r ! ?i)] else r"
  let ?F = "\<lambda>k r. if k \<in> set codes
                then r[get_loc ''SalesPrice'' (columns t) := ?g ''SalesPrice'' k] else r"
  have "rows (frame (loc_assign ?a1 codes ''SalesPrice'' (map (?g ''SalesPrice'') codes))) =
      map (\<lambda>(k, r). ?F k r) (zip (idx ?a1) (rows (frame ?a1)))"
    unfolding c1 [symmetric] by (rule rows_loc_assign)
  also have "\<dots> = map (\<lambda>(k, r). ?F k r) (zip (map (\<lambda>r. r ! ?i) (rows t)) (map ?h (rows t)))"
    by (simp only: i1 r1)
  also have "\<dots> = map (\<lambda>r. ?F (r ! ?i) (?h r)) (rows t)"
    by (rule map2_key)
  also have "\<dots> = map (\<lambda>r. if r ! ?i \<in> set codes
                then r[get_loc ''PurchasePrice'' (columns t) := ?g ''PurchasePrice'' (r ! ?i),
                       get_loc ''SalesPrice'' (columns t) := ?g ''SalesPrice'' (r ! ?i)] else r) (rows t)"
    by auto
  finally have "rows (frame (loc_assign ?a1 codes ''SalesPrice'' (map (?g ''SalesPrice'') codes))) =
      map (\<lambda>r. if r ! ?i \<in> set codes
                then r[get_loc ''PurchasePrice'' (columns t) := ?g ''PurchasePrice'' (r ! ?i),
                       get_loc ''SalesPrice'' (columns t) := ?g ''SalesPrice'' (r ! ?i)] else r) (rows t)" .
  then show ?thesis
    by (simp add: apply_updates_def Let_def reset_index_drop_def loc_col_def)
qed

section \<open>Restoring the column order\<close>

lemma map_get_loc_self:
  assumes "distinct cols" "length r = length cols"
  shows "map (\<lambda>c. r ! get_loc c cols) cols = r"
proof (rule nth_equalityI)
  show "length (map (\<lambda>c. r ! get_loc c cols) cols) = length r"
    using assms by simp
next
  fix i
  assume "i < length (map (\<lambda>c. r ! get_loc c cols) cols)"
  then have "i < length cols" by simp
  then show "map (\<lambda>c. r ! get_loc c cols) cols ! i = r ! i"
    using assms by (simp add: get_loc_of_nth)
qed

lemma reindex_same:
  assumes "distinct (columns t)" "\<forall>r\<in>set (rows t). length r = length (columns t)"
  shows "reindex (columns t) t = t"
proof -
  have "map (\<lambda>c. if c \<in> set (columns t) then r ! get_loc c (columns t) else NaN) (columns t) = r"
    if "r \<in> set (rows t)" for r
  proof -
    have "map (\<lambda>c. if c \<in> set (columns t) then r ! get_loc c (columns t) else NaN) (columns t)
            = map (\<lambda>c. r ! get_loc c (columns t)) (columns t)"
      by (rule map_cong) simp_all
    with that assms show ?thesis by (simp add: map_get_loc_self)
  qed
  then have "map (\<lambda>r. map (\<lambda>c. if c \<in> set (columns t) then r ! get_loc c (columns t) else NaN) (columns t))
                 (rows t) = rows t"
    by (simp add: map_idI)
  then show ?thesis by (simp add: reindex_def)
qed

lemma columns_reindex: "columns (reindex cols t) = cols"
  by (simp add: reindex_def)

section \<open>The result of compare_and_build_exports on readable tables\<close>

lemma readable_cols:
  assumes "readable t"
  shows "wf_table t" "''ItemCode'' \<in> set (columns t)" "''PurchasePrice'' \<in> set (columns t)"
    "''SalesPrice'' \<in> set (columns t)"
  using assms by (simp_all add: readable_def required_catalog_cols_def)

lemma compare_unfold:
  assumes C: "readable C" and M: "readable M"
  shows "compare_and_build_exports P M C =
     Inr (reindex (columns C)
            (if selected_keys P M C \<noteq> []
             then apply_updates (normalized C) (lookup (normalized M))
                    (selected_keys P M C)
             else normalized C),
          (if difference (idx (lookup (normalized M))) (idx (lookup (normalized C))) \<noteq> []
           then new_items (lookup (normalized M))
                  (difference (idx (lookup (normalized M))) (idx (lookup (normalized C))))
           else empty_dataframe),
          length (selected_keys P M C),
          length (difference (idx (lookup (normalized M))) (idx (lookup (normalized C)))))"
proof -
  have missing: "filter (\<lambda>c. c \<notin> set (columns C)) required_catalog_cols = []"
    using readable_cols [OF C] by (simp add: required_catalog_cols_def)
  have pp: "''PurchasePrice'' \<in> set (columns (frame (lookup (normalized M))))"
    and sp: "''SalesPrice'' \<in> set (columns (frame (lookup (normalized M))))"
    using readable_cols [OF M] by (simp_all add: columns_lookup_mem)
  show ?thesis
    unfolding compare_and_build_exports_def Let_def missing
    using readable_cols(2) [OF M] pp sp
    by (simp add: codes_to_update_filter [OF C M])
qed

lemma updated_rows:
  assumes C: "readable C" and M: "readable M"
  shows "rows (if selected_keys P M C \<noteq> []
               then apply_updates (normalized C) (lookup (normalized M))
                      (selected_keys P M C)
               else normalized C)
         = map (updated_row P M C) (rows C)"
proof (cases "selected_keys P M C = []")
  case True
  then have "{k. differing P M C k} = {}"
    using set_codes [OF readable_cols(1,2) [OF C], of P M] by simp
  then have "\<not> differing P M C k" for k by blast
  then show ?thesis
    using True by (simp add: rows_normalized updated_row_def Let_def)
next
  case False
  let ?codes = "selected_keys P M C"
  let ?ml = "lookup (normalized M)"
  let ?i = "get_loc ''ItemCode'' (columns C)"
  note wfC = readable_cols(1) [OF C] and icC = readable_cols(2) [OF C]
  note Mc = readable_cols [OF M]
  have row: "(if r[?i := key_of C r] ! ?i \<in> set ?codes
               then (r[?i := key_of C r])
                    [get_loc ''PurchasePrice'' (columns C) :=
                        loc_row (idx ?ml) (rows (frame ?ml)) (r[?i := key_of C r] ! ?i)
                          ! get_loc ''PurchasePrice'' (columns (frame ?ml)),
                     get_loc ''SalesPrice'' (columns C) :=
                        loc_row (idx ?ml) (rows (frame ?ml)) (r[?i := key_of C r] ! ?i)
                          ! get_loc ''SalesPrice'' (columns (frame ?ml))]
               else r[?i := key_of C r])
             = updated_row P M C r" if r: "r \<in> set (rows C)" for r
  proof -
    have k: "r[?i := key_of C r] ! ?i = key_of C r"
      by (rule key_cell_normalized [OF wfC icC r])
    show ?thesis
    proof (cases "differing P M C (key_of C r)")
      case True
      then have kM: "key_of C r \<in> set (keys M)" by (simp add: differing_keys)
      from True have "key_of C r \<in> set ?codes"
        using set_codes [OF wfC icC, of P M] by simp
      then show ?thesis
        using True
        by (simp add: k updated_row_def Let_def
            lookup_cell [OF Mc(1) Mc(2) Mc(3) _ kM] lookup_cell [OF Mc(1) Mc(2) Mc(4) _ kM])
    next
      case False
      then have "key_of C r \<notin> set ?codes"
        using set_codes [OF wfC icC, of P M] by simp
      then show ?thesis
        using False by (simp add: k updated_row_def Let_def)
    qed
  qed
  have "rows (apply_updates (normalized C) ?ml ?codes) = map (updated_row P M C) (rows C)"
    unfolding rows_apply_updates columns_normalized rows_normalized map_map comp_def
    by (rule map_cong) (simp_all only: row)
  with False show ?thesis by simp
qed

lemma updated_columns:
  "columns (if codes \<noteq> [] then apply_updates (normalized C) ml codes else normalized C) = columns C"
  by (simp add: columns_apply_updates columns_normalized)

lemma length_updated_row: "length (updated_row P M C r) = length r"
  by (simp add: updated_row_def Let_def)

lemma set_difference: "set (difference xs ys) = set xs - set ys"
  by (auto simp: difference_def)

lemma length_new_codes:
  assumes C: "readable C" and M: "readable M"
  shows "length (difference (idx (lookup (normalized M))) (idx (lookup (normalized C))))
           = card (set (keys M) - set (keys C))"
proof -
  have "distinct (difference (idx (lookup (normalized M))) (idx (lookup (normalized C))))"
    by (simp add: difference_def distinct_idx_lookup)
  then have "length (difference (idx (lookup (normalized M))) (idx (lookup (normalized C))))
               = card (set (difference (idx (lookup (normalized M))) (idx (lookup (normalized C)))))"
    by (simp add: distinct_card)
  then show ?thesis
    using readable_cols(1,2) [OF C] readable_cols(1,2) [OF M]
    by (simp add: set_difference set_idx_lookup)
qed

lemma compare_result:
  assumes C: "readable C" and M: "readable M"
  shows "compare_and_build_exports P M C =
     Inr (\<lparr>columns = columns C, rows = map (updated_row P M C) (rows C)\<rparr>,
          (if difference (idx (lookup (normalized M))) (idx (lookup (normalized C))) \<noteq> []
           then new_items (lookup (normalized M))
                  (difference (idx (lookup (normalized M))) (idx (lookup (normalized C))))
           else empty_dataframe),
          card {k. differing P M C k},
          card (set (keys M) - set (keys C)))"
proof -
  let ?U = "if selected_keys P M C \<noteq> []
             then apply_updates (normalized C) (lookup (normalized M))
                    (selected_keys P M C)
             else normalized C"
  have cols: "columns ?U = columns C" by (rule updated_columns)
  have rws: "rows ?U = map (updated_row P M C) (rows C)" by (rule updated_rows [OF C M])
  have U: "?U = \<lparr>columns = columns C, rows = map (updated_row P M C) (rows C)\<rparr>"
    using cols rws by (cases ?U) simp
  have "distinct (columns ?U)"
    using readable_cols(1) [OF C] by (simp only: cols wf_table_def)
  moreover have "\<forall>r\<in>set (rows ?U). length r = length (columns ?U)"
    using readable_cols(1) [OF C]
    by (simp only: cols rws) (auto simp: length_updated_row wf_table_def list_all_iff)
  ultimately have "reindex (columns ?U) ?U = ?U" by (rule reindex_same)
  then have re: "reindex (columns C) ?U = \<lparr>columns = columns C, rows = map (updated_row P M C) (rows C)\<rparr>"
    using U cols by simp
  show ?thesis
    unfolding compare_unfold [OF C M] re
    by (simp only: length_codes [OF readable_cols(1,2) [OF C]] length_new_codes [OF C M])
qed

section \<open>Shape of the new-items table\<close>

lemma standardized_readable:
  "wf_table M \<Longrightarrow> columns M = STANDARD_HEADERS \<Longrightarrow> readable M"
  by (simp add: readable_def required_catalog_cols_def STANDARD_HEADERS_def)

lemma length_rows_reset_index_loc_rows:
  "length (rows (reset_index name (loc_rows ix codes))) = length codes"
  by (simp add: reset_index_def loc_rows_def)

lemma columns_new_items: "columns (new_items ml codes) = NEW_ITEMS_HEADERS"
  by (simp add: new_items_def dataframe_def Let_def NEW_ITEMS_HEADERS_def)

lemma length_rows_new_items: "length (rows (new_items ml codes)) = length codes"
  by (simp add: new_items_def dataframe_def Let_def length_rows_reset_index_loc_rows)

lemma get_loc_new_items:
  "get_loc ''Id'' NEW_ITEMS_HEADERS = 0"
  "get_loc ''RecordStatusId'' NEW_ITEMS_HEADERS = 8"
  "get_loc ''ItemMaster_Id'' NEW_ITEMS_HEADERS = 11"
  "get_loc ''AspNetUser_Id'' NEW_ITEMS_HEADERS = 12"
  "get_loc ''SupersededItemCode'' NEW_ITEMS_HEADERS = 13"
  by (simp_all add: NEW_ITEMS_HEADERS_def)

lemma row_new_items:
  assumes "r \<in> set (rows (new_items ml codes))"
  shows "length r = length NEW_ITEMS_HEADERS \<and>
         cell_of (new_items ml codes) r ''Id'' = Text ''*'' \<and>
         cell_of (new_items ml codes) r ''RecordStatusId'' = IntVal 1 \<and>
         cell_of (new_items ml codes) r ''ItemMaster_Id'' = Text ''NULL'' \<and>
         cell_of (new_items ml codes) r ''AspNetUser_Id'' = Text ''NULL'' \<and>
         cell_of (new_items ml codes) r ''SupersededItemCode'' = Text ''NULL''"
proof -
  let ?n = "length codes"
  from assms obtain i where i: "i < ?n"
    and r: "r = map (\<lambda>(c, vs). vs ! i)
           [(''Id'', replicate ?n (Text ''*'')),
            (''Supplier'', get_or_blank (reset_index ''ItemCode'' (loc_rows ml codes)) ''Supplier''),
            (''ItemCode'', get_or_blank (reset_index ''ItemCode'' (loc_rows ml codes)) ''ItemCode''),
            (''Description'', get_or_blank (reset_index ''ItemCode'' (loc_rows ml codes)) ''Description''),
            (''PurchasePrice'', get_or_blank (reset_index ''ItemCode'' (loc_rows ml codes)) ''PurchasePrice''),
            (''SalesPrice'', get_or_blank (reset_index ''ItemCode'' (loc_rows ml codes)) ''SalesPrice''),
            (''SV_ManufacturerId'', get_or_blank (reset_index ''ItemCode'' (loc_rows ml codes)) ''SV_ManufacturerId''),
            (''ListCategory'', get_or_blank (reset_index ''ItemCode'' (loc_rows ml codes)) ''ListCategory''),
            (''RecordStatusId'', replicate ?n (IntVal 1)),
            (''MarinaLocationId'', get_or_blank (reset_index ''ItemCode'' (loc_rows ml codes)) ''MarinaLocationId''),
            (''AdditionDatetime'', get_or_blank (reset_index ''ItemCode'' (loc_rows ml codes)) ''AdditionDatetime''),
            (''ItemMaster_Id'', replicate ?n (Text ''NULL'')),
            (''AspNetUser_Id'', replicate ?n (Text ''NULL'')),
            (''SupersededItemCode'', replicate ?n (Text ''NULL''))]"
    unfolding new_items_def dataframe_def Let_def length_rows_reset_index_loc_rows
    by auto
  have len: "length r = length NEW_ITEMS_HEADERS"
    by (simp add: r NEW_ITEMS_HEADERS_def)
  have cells: "r ! 0 = Text ''*''" "r ! 8 = IntVal 1" "r ! 11 = Text ''NULL''"
    "r ! 12 = Text ''NULL''" "r ! 13 = Text ''NULL''"
    using i by (simp_all add: r)
  show ?thesis
    using len cells by (simp add: cell_of_def columns_new_items get_loc_new_items)
qed

lemma get_loc_itemcode_new_items: "get_loc ''ItemCode'' NEW_ITEMS_HEADERS = 2"
  by (simp add: NEW_ITEMS_HEADERS_def)

lemma col_values_reset_index:
  "col_values (reset_index name (loc_rows ix codes)) name = codes"
proof -
  have "map (\<lambda>r. r ! 0) (map (\<lambda>(k, r). k # r) (zip codes (map f codes))) = codes" for f :: "cell \<Rightarrow> cell list"
    by (induction codes) auto
  then show ?thesis
    by (simp add: col_values_def reset_index_def loc_rows_def)
qed

lemma itemcode_new_items: "col_values (new_items ml codes) ''ItemCode'' = codes"
proof -
  let ?df = "reset_index ''ItemCode'' (loc_rows ml codes)"
  have n: "length (rows ?df) = length codes"
    by (rule length_rows_reset_index_loc_rows)
  have g: "get_or_blank ?df ''ItemCode'' = codes"
    by (simp add: get_or_blank_def col_values_reset_index) (simp add: reset_index_def)
  have "col_values (new_items ml codes) ''ItemCode'' = map (\<lambda>i. codes ! i) [0..<length codes]"
    unfolding new_items_def Let_def n g
    by (simp add: col_values_def dataframe_def)
  then show ?thesis by (simp add: map_nth)
qed

lemma new_codes_keys:
  assumes C: "readable C" and M: "readable M"
  shows "difference (idx (lookup (normalized M))) (idx (lookup (normalized C)))
           = filter (\<lambda>k. k \<notin> set (keys C)) (remdups (keys M))"
  using readable_cols(1,2) [OF C] readable_cols(1,2) [OF M]
  by (simp add: difference_def idx_lookup_remdups set_idx_lookup)

section \<open>Claims about compare_and_build_exports\<close>

text \<open>
  C1. For every catalog table that contains the three required columns and every
  standardized table, the function returns, and the updated catalog it returns has exactly
  the column names of the input catalog, in the same order. (Tables are well formed; a
  standardized table has the columns of \<open>STANDARD_HEADERS\<close> and is therefore readable, by
  \<open>standardized_readable\<close>.)
\<close>

theorem column_order_preserved:
  assumes "readable C" and "readable M"
  shows "\<exists>U N uc nc. compare_and_build_exports P M C = Inr (U, N, uc, nc) \<and> columns U = columns C"
  using compare_result [OF assms, of P] by simp

theorem column_order_preserved_witness:
  "readable catalog_ex \<and> readable standardized_ex \<and>
   compare_and_build_exports pandas_ex standardized_ex catalog_ex
     = Inr (updated_ex, new_items_ex, 1, 1) \<and>
   columns updated_ex = columns catalog_ex"
proof -
  have c: "readable catalog_ex" by code_simp
  have m: "readable standardized_ex" by code_simp
  have run: "compare_and_build_exports pandas_ex standardized_ex catalog_ex
               = Inr (updated_ex, new_items_ex, 1, 1)"
    by code_simp
  from column_order_preserved [OF c m, of pandas_ex] run
  have "columns updated_ex = columns catalog_ex" by simp
  with c m run show ?thesis by simp
qed

text \<open>
  C8. The function fails with the \<open>ValueError\<close> of the schema check if and only if the
  catalog lacks at least one of \<open>ItemCode\<close>, \<open>PurchasePrice\<close>, \<open>SalesPrice\<close>; the message
  names the missing columns, and on this failure the result is the error alone: no table is
  returned.
\<close>

theorem schema_error_iff:
  "((\<exists>msg. compare_and_build_exports P M C = Inl (ValueError msg))
      \<longleftrightarrow> \<not> set required_catalog_cols \<subseteq> set (columns C)) \<and>
   (\<not> set required_catalog_cols \<subseteq> set (columns C) \<longrightarrow>
      compare_and_build_exports P M C
        = Inl (ValueError (schema_message (filter (\<lambda>c. c \<notin> set (columns C)) required_catalog_cols))) \<and>
      schema_message (filter (\<lambda>c. c \<notin> set (columns C)) required_catalog_cols)
        = ''Marina catalog must contain columns: ItemCode, PurchasePrice, SalesPrice. Missing: ''
            @ join '', '' (filter (\<lambda>c. c \<notin> set (columns C)) required_catalog_cols) \<and>
      set (filter (\<lambda>c. c \<notin> set (columns C)) required_catalog_cols)
        = set required_catalog_cols - set (columns C) \<and>
      (\<forall>res. compare_and_build_exports P M C \<noteq> Inr res))"
proof -
  let ?missing = "filter (\<lambda>c. c \<notin> set (columns C)) required_catalog_cols"
  have m: "?missing \<noteq> [] \<longleftrightarrow> \<not> set required_catalog_cols \<subseteq> set (columns C)"
    by (auto simp: filter_empty_conv)
  have fails: "compare_and_build_exports P M C = Inl (ValueError (schema_message ?missing))"
    if "?missing \<noteq> []"
    using that unfolding compare_and_build_exports_def Let_def by simp
  have other: "\<forall>msg. compare_and_build_exports P M C \<noteq> Inl (ValueError msg)"
    if "?missing = []"
    using that unfolding compare_and_build_exports_def Let_def by simp
  have msg: "schema_message ?missing
        = ''Marina catalog must contain columns: ItemCode, PurchasePrice, SalesPrice. Missing: ''
            @ join '', '' ?missing"
    by (simp add: schema_message_def required_catalog_cols_def)
  show ?thesis
    using m fails other msg by auto
qed

theorem schema_error_iff_witness:
  "\<not> set required_catalog_cols \<subseteq> set (columns catalog_no_sales) \<and>
   compare_and_build_exports pandas_ex standardized_a1 catalog_no_sales
     = Inl (ValueError ''Marina catalog must contain columns: ItemCode, PurchasePrice, SalesPrice. Missing: SalesPrice'')"
proof -
  have h: "\<not> set required_catalog_cols \<subseteq> set (columns catalog_no_sales)"
    by (simp add: required_catalog_cols_def catalog_no_sales_def)
  have f: "filter (\<lambda>c. c \<notin> set (columns catalog_no_sales)) required_catalog_cols = [''SalesPrice'']"
    by (simp add: required_catalog_cols_def catalog_no_sales_def)
  from schema_error_iff [of pandas_ex standardized_a1 catalog_no_sales] h
  have "compare_and_build_exports pandas_ex standardized_a1 catalog_no_sales
     = Inl (ValueError (''Marina catalog must contain columns: ItemCode, PurchasePrice, SalesPrice. Missing: ''
            @ join '', '' (filter (\<lambda>c. c \<notin> set (columns catalog_no_sales)) required_catalog_cols)))"
    by simp
  with h show ?thesis by (simp add: f)
qed

text \<open>
  C6, as stated: the new-items table always carries the 14 columns, also when it has no
  rows. This fails: when no key is new, the function returns \<open>pd.DataFrame()\<close>, which has no
  columns. Here the standardized table holds one key, the catalog has it at the same
  prices, and the new-items table returned has no column at all.
\<close>

theorem new_items_schema_counterexample:
  "compare_and_build_exports pandas_ex standardized_a1 updated_a1
     = Inr (updated_a1, empty_dataframe, 0, 0) \<and>
   columns empty_dataframe = [] \<and> columns empty_dataframe \<noteq> NEW_ITEMS_HEADERS"
  by code_simp

text \<open>
  C6, amended. The function returns on readable tables, and \<open>new_count\<close> is the number of
  keys of the standardized table that are not keys of the catalog. When at least one key is
  new, the new-items table has the 14 columns of \<open>NEW_ITEMS_HEADERS\<close> in that order and one
  row per new key, its \<open>ItemCode\<close> column holding the new keys in the order of their last
  occurrence, and every row has \<open>Id = "*"\<close>, \<open>RecordStatusId = 1\<close> and the text \<open>NULL\<close> in
  \<open>ItemMaster_Id\<close>, \<open>AspNetUser_Id\<close> and \<open>SupersededItemCode\<close>. When no key is new, the
  new-items table is the empty DataFrame without columns.
\<close>

theorem new_items_schema:
  assumes "readable C" and "readable M"
  shows "\<exists>U N uc nc. compare_and_build_exports P M C = Inr (U, N, uc, nc) \<and>
     nc = card (set (keys M) - set (keys C)) \<and>
     (nc = 0 \<longrightarrow> N = empty_dataframe) \<and>
     (0 < nc \<longrightarrow>
        columns N = NEW_ITEMS_HEADERS \<and> length (rows N) = nc \<and>
        col_values N ''ItemCode'' = filter (\<lambda>k. k \<notin> set (keys C)) (remdups (keys M)) \<and>
        (\<forall>r\<in>set (rows N).
           length r = length NEW_ITEMS_HEADERS \<and>
           cell_of N r ''Id'' = Text ''*'' \<and>
           cell_of N r ''RecordStatusId'' = IntVal 1 \<and>
           cell_of N r ''ItemMaster_Id'' = Text ''NULL'' \<and>
           cell_of N r ''AspNetUser_Id'' = Text ''NULL'' \<and>
           cell_of N r ''SupersededItemCode'' = Text ''NULL''))"
proof -
  let ?new = "difference (idx (lookup (normalized M))) (idx (lookup (normalized C)))"
  let ?N = "if ?new \<noteq> [] then new_items (lookup (normalized M)) ?new else empty_dataframe"
  let ?nc = "card (set (keys M) - set (keys C))"
  have run: "compare_and_build_exports P M C =
     Inr (\<lparr>columns = columns C, rows = map (updated_row P M C) (rows C)\<rparr>,
          ?N, card {k. differing P M C k}, ?nc)"
    by (rule compare_result [OF assms])
  have len: "length ?new = ?nc"
    by (rule length_new_codes [OF assms])
  have zero: "?nc = 0 \<longrightarrow> ?N = empty_dataframe"
  proof
    assume "?nc = 0"
    with len have "length ?new = 0" by (simp only:)
    then have "?new = []" by simp
    then show "?N = empty_dataframe" by simp
  qed
  have pos: "0 < ?nc \<longrightarrow>
        columns ?N = NEW_ITEMS_HEADERS \<and> length (rows ?N) = ?nc \<and>
        col_values ?N ''ItemCode'' = filter (\<lambda>k. k \<notin> set (keys C)) (remdups (keys M)) \<and>
        (\<forall>r\<in>set (rows ?N).
           length r = length NEW_ITEMS_HEADERS \<and>
           cell_of ?N r ''Id'' = Text ''*'' \<and>
           cell_of ?N r ''RecordStatusId'' = IntVal 1 \<and>
           cell_of ?N r ''ItemMaster_Id'' = Text ''NULL'' \<and>
           cell_of ?N r ''AspNetUser_Id'' = Text ''NULL'' \<and>
           cell_of ?N r ''SupersededItemCode'' = Text ''NULL'')"
  proof
    assume "0 < ?nc"
    with len have "0 < length ?new" by (simp only:)
    then have ne: "?new \<noteq> []" by simp
    then have N: "?N = new_items (lookup (normalized M)) ?new" by simp
    show "columns ?N = NEW_ITEMS_HEADERS \<and> length (rows ?N) = ?nc \<and>
        col_values ?N ''ItemCode'' = filter (\<lambda>k. k \<notin> set (keys C)) (remdups (keys M)) \<and>
        (\<forall>r\<in>set (rows ?N).
           length r = length NEW_ITEMS_HEADERS \<and>
           cell_of ?N r ''Id'' = Text ''*'' \<and>
           cell_of ?N r ''RecordStatusId'' = IntVal 1 \<and>
           cell_of ?N r ''ItemMaster_Id'' = Text ''NULL'' \<and>
           cell_of ?N r ''AspNetUser_Id'' = Text ''NULL'' \<and>
           cell_of ?N r ''SupersededItemCode'' = Text ''NULL'')"
      unfolding N
      using row_new_items [of _ "lookup (normalized M)" ?new] len new_codes_keys [OF assms]
      by (simp add: columns_new_items length_rows_new_items itemcode_new_items)
  qed
  show ?thesis
    by (rule exI [where x = "\<lparr>columns = columns C, rows = map (updated_row P M C) (rows C)\<rparr>"],
        rule exI [where x = ?N], rule exI [where x = "card {k. differing P M C k}"],
        rule exI [where x = ?nc])
       (intro conjI run refl zero pos)
qed

theorem new_items_schema_witness:
  "readable catalog_ex \<and> readable standardized_ex \<and>
   compare_and_build_exports pandas_ex standardized_ex catalog_ex
     = Inr (updated_ex, new_items_ex, 1, 1) \<and>
   card (set (keys standardized_ex) - set (keys catalog_ex)) = 1 \<and>
   columns new_items_ex = NEW_ITEMS_HEADERS \<and> length (rows new_items_ex) = 1 \<and>
   col_values new_items_ex ''ItemCode'' = [Text ''N1''] \<and>
   cell_of new_items_ex (rows new_items_ex ! 0) ''Id'' = Text ''*'' \<and>
   cell_of new_items_ex (rows new_items_ex ! 0) ''RecordStatusId'' = IntVal 1"
proof -
  have c: "readable catalog_ex" by code_simp
  have m: "readable standardized_ex" by code_simp
  have run: "compare_and_build_exports pandas_ex standardized_ex catalog_ex
               = Inr (updated_ex, new_items_ex, 1, 1)"
    by code_simp
  have r: "rows new_items_ex ! 0 \<in> set (rows new_items_ex)"
    by (simp add: new_items_ex_def)
  have nk: "filter (\<lambda>k. k \<notin> set (keys catalog_ex)) (remdups (keys standardized_ex)) = [Text ''N1'']"
    by code_simp
  from new_items_schema [OF c m, of pandas_ex] run r
  have "card (set (keys standardized_ex) - set (keys catalog_ex)) = 1 \<and>
   columns new_items_ex = NEW_ITEMS_HEADERS \<and> length (rows new_items_ex) = 1 \<and>
   col_values new_items_ex ''ItemCode''
     = filter (\<lambda>k. k \<notin> set (keys catalog_ex)) (remdups (keys standardized_ex)) \<and>
   cell_of new_items_ex (rows new_items_ex ! 0) ''Id'' = Text ''*'' \<and>
   cell_of new_items_ex (rows new_items_ex ! 0) ''RecordStatusId'' = IntVal 1"
    by simp
  then have "card (set (keys standardized_ex) - set (keys catalog_ex)) = 1 \<and>
   columns new_items_ex = NEW_ITEMS_HEADERS \<and> length (rows new_items_ex) = 1 \<and>
   col_values new_items_ex ''ItemCode'' = [Text ''N1''] \<and>
   cell_of new_items_ex (rows new_items_ex ! 0) ''Id'' = Text ''*'' \<and>
   cell_of new_items_ex (rows new_items_ex ! 0) ''RecordStatusId'' = IntVal 1"
    unfolding nk .
  with c m run show ?thesis by blast
qed

section \<open>The cells of an updated row\<close>

lemma cell_of_columns: "columns U = columns C \<Longrightarrow> cell_of U r c = cell_of C r c"
  by (simp add: cell_of_def)

lemma readable_positions:
  assumes C: "readable C" and r: "r \<in> set (rows C)"
  shows "get_loc ''ItemCode'' (columns C) < length r"
    "get_loc ''PurchasePrice'' (columns C) < length r"
    "get_loc ''SalesPrice'' (columns C) < length r"
    "get_loc ''ItemCode'' (columns C) \<noteq> get_loc ''PurchasePrice'' (columns C)"
    "get_loc ''ItemCode'' (columns C) \<noteq> get_loc ''SalesPrice'' (columns C)"
    "get_loc ''PurchasePrice'' (columns C) \<noteq> get_loc ''SalesPrice'' (columns C)"
  using readable_cols [OF C] r
  by (simp_all add: wf_table_row get_loc_lt get_loc_neq)

lemma updated_row_same:
  "\<not> differing P M C (key_of C r) \<Longrightarrow>
   updated_row P M C r = r[get_loc ''ItemCode'' (columns C) := key_of C r]"
  by (simp add: updated_row_def Let_def)

lemma updated_row_key:
  assumes C: "readable C" and r: "r \<in> set (rows C)"
  shows "cell_of C (updated_row P M C r) ''ItemCode'' = key_of C r"
  using readable_positions [OF C r]
  by (simp add: updated_row_def Let_def cell_of_def)

lemma updated_row_prices:
  assumes C: "readable C" and r: "r \<in> set (rows C)" and d: "differing P M C (key_of C r)"
  shows "cell_of C (updated_row P M C r) ''PurchasePrice''
           = cell_of M (last_with M (key_of C r)) ''PurchasePrice''"
    and "cell_of C (updated_row P M C r) ''SalesPrice''
           = cell_of M (last_with M (key_of C r)) ''SalesPrice''"
  using readable_positions [OF C r] d
  by (simp_all add: updated_row_def Let_def cell_of_def [of C])

lemma updated_row_prices_same:
  assumes C: "readable C" and r: "r \<in> set (rows C)" and d: "\<not> differing P M C (key_of C r)"
  shows "cell_of C (updated_row P M C r) ''PurchasePrice'' = cell_of C r ''PurchasePrice''"
    and "cell_of C (updated_row P M C r) ''SalesPrice'' = cell_of C r ''SalesPrice''"
  using readable_positions [OF C r] d
  by (simp_all add: updated_row_def Let_def cell_of_def [of C])

lemma updated_row_other:
  assumes c: "c \<in> set (columns C)" "c \<noteq> ''ItemCode''" "c \<noteq> ''PurchasePrice''"
    "c \<noteq> ''SalesPrice''"
  shows "cell_of C (updated_row P M C r) c = cell_of C r c"
proof -
  have "get_loc c (columns C) \<noteq> get_loc ''ItemCode'' (columns C)"
    "get_loc c (columns C) \<noteq> get_loc ''PurchasePrice'' (columns C)"
    "get_loc c (columns C) \<noteq> get_loc ''SalesPrice'' (columns C)"
    using c by (simp_all add: get_loc_neq)
  then show ?thesis
    by (simp add: updated_row_def Let_def cell_of_def)
qed

lemma compare_rows:
  assumes C: "readable C" and M: "readable M"
  shows "\<exists>U N uc nc. compare_and_build_exports P M C = Inr (U, N, uc, nc) \<and>
           columns U = columns C \<and> rows U = map (updated_row P M C) (rows C) \<and>
           uc = card {k. differing P M C k} \<and>
           nc = card (set (keys M) - set (keys C))"
  using compare_result [OF C M, of P] by simp

text \<open>The keys the code selects are the differing keys.\<close>

lemma mem_codes_to_update:
  assumes C: "readable C" and M: "readable M"
  shows "k \<in> set (codes_to_update P (lookup (normalized C)) (lookup (normalized M))
                    (intersection (idx (lookup (normalized C))) (idx (lookup (normalized M)))))
         \<longleftrightarrow> differing P M C k"
  using set_codes [OF readable_cols(1,2) [OF C], of P M]
  by (simp add: codes_to_update_filter [OF C M])

text \<open>
  C3. For a differing key only the two price cells of its catalog row are to be overwritten,
  every other column of the row left unchanged. The function does not do this for the
  \<open>ItemCode\<close> cell: it assigns the normalised keys to \<open>df_catalog_updated\<close>, the frame it
  returns, not to a local copy as it does for the standardized table. The evaluation below
  is at a catalog row with the key \<open>" A1"\<close> and a standardized row with a different sales
  price: the updated row has the key \<open>"A1"\<close>.
\<close>

theorem selective_update_rewrites_itemcode:
  "compare_and_build_exports pandas_ex standardized_a1 catalog_a1
     = Inr (updated_a1, empty_dataframe, 1, 0) \<and>
   cell_of catalog_a1 (rows catalog_a1 ! 0) ''ItemCode'' = Text '' A1'' \<and>
   cell_of updated_a1 (rows updated_a1 ! 0) ''ItemCode'' = Text ''A1'' \<and>
   cell_of updated_a1 (rows updated_a1 ! 0) ''ItemCode''
     \<noteq> cell_of catalog_a1 (rows catalog_a1 ! 0) ''ItemCode''"
  by code_simp

text \<open>
  What the function does for the rows of differing keys. It returns on readable tables, and
  \<open>updated_count\<close> is the number of differing keys (keys in both tables whose parsed prices
  differ). The updated catalog has the rows of the catalog in their order; in a row whose
  key differs, \<open>PurchasePrice\<close> and \<open>SalesPrice\<close> hold the cells of the standardized row
  as they are (the text, not the parsed number), \<open>ItemCode\<close> holds the trimmed key, and
  every other column is unchanged.
\<close>

theorem selective_price_update:
  assumes "readable C" and "readable M"
  shows "\<exists>U N uc nc. compare_and_build_exports P M C = Inr (U, N, uc, nc) \<and>
     uc = card {k. differing P M C k} \<and>
     length (rows U) = length (rows C) \<and>
     (\<forall>i<length (rows C). differing P M C (key_of C (rows C ! i)) \<longrightarrow>
        cell_of U (rows U ! i) ''PurchasePrice''
          = cell_of M (last_with M (key_of C (rows C ! i))) ''PurchasePrice'' \<and>
        cell_of U (rows U ! i) ''SalesPrice''
          = cell_of M (last_with M (key_of C (rows C ! i))) ''SalesPrice'' \<and>
        cell_of U (rows U ! i) ''ItemCode'' = key_of C (rows C ! i) \<and>
        (\<forall>c\<in>set (columns C). c \<noteq> ''ItemCode'' \<and> c \<noteq> ''PurchasePrice'' \<and> c \<noteq> ''SalesPrice''
           \<longrightarrow> cell_of U (rows U ! i) c = cell_of C (rows C ! i) c))"
proof -
  from compare_rows [OF assms, of P] obtain U N uc nc
    where run: "compare_and_build_exports P M C = Inr (U, N, uc, nc)"
      and cols: "columns U = columns C"
      and rws: "rows U = map (updated_row P M C) (rows C)"
      and uc: "uc = card {k. differing P M C k}"
    by blast
  have "cell_of U (rows U ! i) ''PurchasePrice''
          = cell_of M (last_with M (key_of C (rows C ! i))) ''PurchasePrice'' \<and>
        cell_of U (rows U ! i) ''SalesPrice''
          = cell_of M (last_with M (key_of C (rows C ! i))) ''SalesPrice'' \<and>
        cell_of U (rows U ! i) ''ItemCode'' = key_of C (rows C ! i) \<and>
        (\<forall>c\<in>set (columns C). c \<noteq> ''ItemCode'' \<and> c \<noteq> ''PurchasePrice'' \<and> c \<noteq> ''SalesPrice''
           \<longrightarrow> cell_of U (rows U ! i) c = cell_of C (rows C ! i) c)"
    if i: "i < length (rows C)" and d: "differing P M C (key_of C (rows C ! i))" for i
  proof -
    from i have r: "rows C ! i \<in> set (rows C)" by simp
    from i have ri: "rows U ! i = updated_row P M C (rows C ! i)" by (simp add: rws)
    show ?thesis
      unfolding ri cell_of_columns [OF cols]
      using updated_row_prices [OF assms(1) r d] updated_row_key [OF assms(1) r, of P M]
        updated_row_other [of _ C P M "rows C ! i"]
      by simp
  qed
  with run uc rws show ?thesis by auto
qed

theorem selective_price_update_witness:
  "readable catalog_a1 \<and> readable standardized_a1 \<and>
   differing pandas_ex standardized_a1 catalog_a1 (key_of catalog_a1 (rows catalog_a1 ! 0)) \<and>
   compare_and_build_exports pandas_ex standardized_a1 catalog_a1
     = Inr (updated_a1, empty_dataframe, 1, 0) \<and>
   cell_of updated_a1 (rows updated_a1 ! 0) ''SalesPrice'' = Text ''25'' \<and>
   cell_of updated_a1 (rows updated_a1 ! 0) ''Notes'' = Text ''keep''"
proof -
  have c: "readable catalog_a1" by code_simp
  have m: "readable standardized_a1" by code_simp
  have d: "differing pandas_ex standardized_a1 catalog_a1 (key_of catalog_a1 (rows catalog_a1 ! 0))"
    by code_simp
  have run: "compare_and_build_exports pandas_ex standardized_a1 catalog_a1
               = Inr (updated_a1, empty_dataframe, 1, 0)"
    by code_simp
  have i: "0 < length (rows catalog_a1)" by (simp add: catalog_a1_def)
  have n: "''Notes'' \<in> set (columns catalog_a1)" by (simp add: catalog_a1_def)
  have sp: "cell_of standardized_a1
              (last_with standardized_a1 (key_of catalog_a1 (rows catalog_a1 ! 0))) ''SalesPrice''
            = Text ''25''"
    by code_simp
  have nt: "cell_of catalog_a1 (rows catalog_a1 ! 0) ''Notes'' = Text ''keep''"
    by code_simp
  from selective_price_update [OF c m, of pandas_ex] run i d n sp nt
  have "cell_of updated_a1 (rows updated_a1 ! 0) ''SalesPrice'' = Text ''25'' \<and>
        cell_of updated_a1 (rows updated_a1 ! 0) ''Notes'' = Text ''keep''"
    by auto
  with c m d run show ?thesis by simp
qed

text \<open>
  C4. A catalog row whose key never appears in the standardized table is to be in the
  updated catalog with every cell identical; the docstring of the function says of such a
  row: do nothing, keep row as-is. The function does not do this when the \<open>ItemCode\<close>
  cell has surrounding blanks, since the frame it returns is the copy whose \<open>ItemCode\<close>
  column it has normalised. The evaluation below is at a catalog whose row with the key
  \<open>" Z9"\<close> has no standardized row: the updated catalog does not contain that row.
\<close>

theorem catalog_only_row_rewritten:
  "compare_and_build_exports pandas_ex standardized_ex catalog_ex
     = Inr (updated_ex, new_items_ex, 1, 1) \<and>
   key_of catalog_ex (rows catalog_ex ! 1) \<notin> set (keys standardized_ex) \<and>
   cell_of catalog_ex (rows catalog_ex ! 1) ''ItemCode'' \<notin> set (col_values standardized_ex ''ItemCode'') \<and>
   rows catalog_ex ! 1 \<notin> set (rows updated_ex) \<and>
   rows updated_ex ! 1 \<noteq> rows catalog_ex ! 1"
  by code_simp

text \<open>
  What the function does for the rows of catalog-only keys. It returns on readable tables,
  and the updated catalog has as many rows as the catalog, in the same order. A row whose
  key is not a key of the standardized table is the catalog row with its \<open>ItemCode\<close> cell
  replaced by the trimmed key, every other cell identical; when the \<open>ItemCode\<close> cell is
  already the trimmed key, the row is identical.
\<close>

theorem catalog_only_rows_kept:
  assumes "readable C" and "readable M"
  shows "\<exists>U N uc nc. compare_and_build_exports P M C = Inr (U, N, uc, nc) \<and>
     length (rows U) = length (rows C) \<and>
     (\<forall>i<length (rows C). key_of C (rows C ! i) \<notin> set (keys M) \<longrightarrow>
        rows U ! i = (rows C ! i)[get_loc ''ItemCode'' (columns C) := key_of C (rows C ! i)] \<and>
        (cell_of C (rows C ! i) ''ItemCode'' = key_of C (rows C ! i) \<longrightarrow> rows U ! i = rows C ! i))"
proof -
  from compare_rows [OF assms, of P] obtain U N uc nc
    where run: "compare_and_build_exports P M C = Inr (U, N, uc, nc)"
      and rws: "rows U = map (updated_row P M C) (rows C)"
    by blast
  have "rows U ! i = (rows C ! i)[get_loc ''ItemCode'' (columns C) := key_of C (rows C ! i)] \<and>
        (cell_of C (rows C ! i) ''ItemCode'' = key_of C (rows C ! i) \<longrightarrow> rows U ! i = rows C ! i)"
    if i: "i < length (rows C)" and k: "key_of C (rows C ! i) \<notin> set (keys M)" for i
  proof -
    from k have "\<not> differing P M C (key_of C (rows C ! i))"
      using differing_keys [of P M C] by blast
    then have u: "rows U ! i = (rows C ! i)[get_loc ''ItemCode'' (columns C) := key_of C (rows C ! i)]"
      using i by (simp add: rws updated_row_same)
    have "rows U ! i = rows C ! i"
      if "cell_of C (rows C ! i) ''ItemCode'' = key_of C (rows C ! i)"
      using that u by (metis cell_of_def list_update_id)
    with u show ?thesis by blast
  qed
  then have row: "\<forall>i<length (rows C). key_of C (rows C ! i) \<notin> set (keys M) \<longrightarrow>
        rows U ! i = (rows C ! i)[get_loc ''ItemCode'' (columns C) := key_of C (rows C ! i)] \<and>
        (cell_of C (rows C ! i) ''ItemCode'' = key_of C (rows C ! i) \<longrightarrow> rows U ! i = rows C ! i)"
    by blast
  have len: "length (rows U) = length (rows C)" by (simp add: rws)
  from run len row show ?thesis by blast
qed

theorem catalog_only_rows_kept_witness:
  "readable catalog_ex \<and> readable standardized_ex \<and>
   key_of catalog_ex (rows catalog_ex ! 1) \<notin> set (keys standardized_ex) \<and>
   compare_and_build_exports pandas_ex standardized_ex catalog_ex
     = Inr (updated_ex, new_items_ex, 1, 1) \<and>
   rows updated_ex ! 1
     = (rows catalog_ex ! 1)[get_loc ''ItemCode'' (columns catalog_ex) := Text ''Z9'']"
proof -
  have c: "readable catalog_ex" by code_simp
  have m: "readable standardized_ex" by code_simp
  have k: "key_of catalog_ex (rows catalog_ex ! 1) \<notin> set (keys standardized_ex)" by code_simp
  have kv: "key_of catalog_ex (rows catalog_ex ! 1) = Text ''Z9''" by code_simp
  have run: "compare_and_build_exports pandas_ex standardized_ex catalog_ex
               = Inr (updated_ex, new_items_ex, 1, 1)"
    by code_simp
  have i: "1 < length (rows catalog_ex)" by (simp add: catalog_ex_def)
  from catalog_only_rows_kept [OF c m, of pandas_ex] run i k
  have "rows updated_ex ! 1
     = (rows catalog_ex ! 1)[get_loc ''ItemCode'' (columns catalog_ex) := key_of catalog_ex (rows catalog_ex ! 1)]"
    by auto
  then have "rows updated_ex ! 1
     = (rows catalog_ex ! 1)[get_loc ''ItemCode'' (columns catalog_ex) := Text ''Z9'']"
    unfolding kv .
  with c m k run show ?thesis by blast
qed

text \<open>
  C10. When several catalog rows share one trimmed key, the difference test reads only the
  last of them. The keys the code selects for update are \<open>selected_keys\<close>: the price
  columns it compares hold, for each key of both tables, the price cells of the last catalog
  row and of the last standardized row bearing the key (\<open>last_cells\<close>), each column parsed as
  a whole, and the key at a position is selected exactly when the values at that position
  differ. The overwrite is applied to every catalog row bearing a selected key, and the
  updated catalog has all the rows of the catalog.
\<close>

theorem duplicate_catalog_keys:
  assumes "readable C" and "readable M"
  shows "codes_to_update P (lookup (normalized C)) (lookup (normalized M))
           (intersection (idx (lookup (normalized C))) (idx (lookup (normalized M))))
         = selected_keys P M C \<and>
     set (selected_keys P M C) \<subseteq> set (shared_keys M C) \<and>
     (\<forall>i<length (shared_keys M C).
        shared_keys M C ! i \<in> set (selected_keys P M C)
        \<longleftrightarrow> (ne (differ P)
               (to_num P (last_cells C (shared_keys M C) ''PurchasePrice'') ! i)
               (to_num P (last_cells M (shared_keys M C) ''PurchasePrice'') ! i) \<or>
             ne (differ P)
               (to_num P (last_cells C (shared_keys M C) ''SalesPrice'') ! i)
               (to_num P (last_cells M (shared_keys M C) ''SalesPrice'') ! i))) \<and>
     (\<exists>U N uc nc. compare_and_build_exports P M C = Inr (U, N, uc, nc) \<and>
        length (rows U) = length (rows C) \<and>
        (\<forall>i<length (rows C).
           key_of C (rows C ! i)
             \<in> set (codes_to_update P (lookup (normalized C)) (lookup (normalized M))
                      (intersection (idx (lookup (normalized C))) (idx (lookup (normalized M)))))
           \<longrightarrow> cell_of U (rows U ! i) ''PurchasePrice''
                 = cell_of M (last_with M (key_of C (rows C ! i))) ''PurchasePrice'' \<and>
               cell_of U (rows U ! i) ''SalesPrice''
                 = cell_of M (last_with M (key_of C (rows C ! i))) ''SalesPrice''))"
proof -
  let ?codes = "codes_to_update P (lookup (normalized C)) (lookup (normalized M))
                  (intersection (idx (lookup (normalized C))) (idx (lookup (normalized M))))"
  have codes: "?codes = selected_keys P M C"
    by (rule codes_to_update_filter [OF assms])
  have sub: "set (selected_keys P M C) \<subseteq> set (shared_keys M C)"
    by (rule selected_subset_shared)
  have pos: "\<forall>i<length (shared_keys M C).
        shared_keys M C ! i \<in> set (selected_keys P M C)
        \<longleftrightarrow> (ne (differ P)
               (to_num P (last_cells C (shared_keys M C) ''PurchasePrice'') ! i)
               (to_num P (last_cells M (shared_keys M C) ''PurchasePrice'') ! i) \<or>
             ne (differ P)
               (to_num P (last_cells C (shared_keys M C) ''SalesPrice'') ! i)
               (to_num P (last_cells M (shared_keys M C) ''SalesPrice'') ! i))"
    using differing_nth [of _ M C P] differing_flags_nth [of _ M C P]
    by (simp add: differing_def)
  from compare_rows [OF assms, of P] obtain U N uc nc
    where run: "compare_and_build_exports P M C = Inr (U, N, uc, nc)"
      and cols: "columns U = columns C"
      and rws: "rows U = map (updated_row P M C) (rows C)"
    by blast
  have len: "length (rows U) = length (rows C)" by (simp add: rws)
  have "cell_of U (rows U ! i) ''PurchasePrice''
          = cell_of M (last_with M (key_of C (rows C ! i))) ''PurchasePrice'' \<and>
        cell_of U (rows U ! i) ''SalesPrice''
          = cell_of M (last_with M (key_of C (rows C ! i))) ''SalesPrice''"
    if i: "i < length (rows C)" and k: "key_of C (rows C ! i) \<in> set ?codes" for i
  proof -
    from i have r: "rows C ! i \<in> set (rows C)" by simp
    from k have d: "differing P M C (key_of C (rows C ! i))"
      by (simp only: codes differing_def)
    from i have ri: "rows U ! i = updated_row P M C (rows C ! i)" by (simp add: rws)
    show ?thesis
      unfolding ri cell_of_columns [OF cols]
      using updated_row_prices [OF assms(1) r d] by simp
  qed
  then have all: "\<forall>i<length (rows C). key_of C (rows C ! i) \<in> set ?codes
           \<longrightarrow> cell_of U (rows U ! i) ''PurchasePrice''
                 = cell_of M (last_with M (key_of C (rows C ! i))) ''PurchasePrice'' \<and>
               cell_of U (rows U ! i) ''SalesPrice''
                 = cell_of M (last_with M (key_of C (rows C ! i))) ''SalesPrice''"
    by blast
  from run len all have ex: "\<exists>U N uc nc. compare_and_build_exports P M C = Inr (U, N, uc, nc) \<and>
        length (rows U) = length (rows C) \<and>
        (\<forall>i<length (rows C). key_of C (rows C ! i) \<in> set ?codes
           \<longrightarrow> cell_of U (rows U ! i) ''PurchasePrice''
                 = cell_of M (last_with M (key_of C (rows C ! i))) ''PurchasePrice'' \<and>
               cell_of U (rows U ! i) ''SalesPrice''
                 = cell_of M (last_with M (key_of C (rows C ! i))) ''SalesPrice'')"
    by blast
  from codes sub pos ex show ?thesis by (intro conjI)
qed

theorem duplicate_catalog_keys_witness:
  "readable catalog_ex \<and> readable standardized_ex \<and>
   key_of catalog_ex (rows catalog_ex ! 0) = Text ''A1'' \<and>
   key_of catalog_ex (rows catalog_ex ! 2) = Text ''A1'' \<and>
   last_with catalog_ex (Text ''A1'') = rows catalog_ex ! 2 \<and>
   shared_keys standardized_ex catalog_ex = [Text ''A1''] \<and>
   codes_to_update pandas_ex (lookup (normalized catalog_ex)) (lookup (normalized standardized_ex))
     (intersection (idx (lookup (normalized catalog_ex)))
        (idx (lookup (normalized standardized_ex)))) = [Text ''A1''] \<and>
   compare_and_build_exports pandas_ex standardized_ex catalog_ex
     = Inr (updated_ex, new_items_ex, 1, 1) \<and>
   length (rows updated_ex) = 3 \<and>
   cell_of updated_ex (rows updated_ex ! 0) ''SalesPrice'' = Text ''25'' \<and>
   cell_of updated_ex (rows updated_ex ! 2) ''SalesPrice'' = Text ''25''"
proof -
  have c: "readable catalog_ex" by code_simp
  have m: "readable standardized_ex" by code_simp
  have k0: "key_of catalog_ex (rows catalog_ex ! 0) = Text ''A1''" by code_simp
  have k2: "key_of catalog_ex (rows catalog_ex ! 2) = Text ''A1''" by code_simp
  have l: "last_with catalog_ex (Text ''A1'') = rows catalog_ex ! 2" by code_simp
  have sh: "shared_keys standardized_ex catalog_ex = [Text ''A1'']" by code_simp
  have sk: "selected_keys pandas_ex standardized_ex catalog_ex = [Text ''A1'']" by code_simp
  have run: "compare_and_build_exports pandas_ex standardized_ex catalog_ex
               = Inr (updated_ex, new_items_ex, 1, 1)"
    by code_simp
  have len: "length (rows catalog_ex) = 3" by (simp add: catalog_ex_def)
  have sp: "cell_of standardized_ex (last_with standardized_ex (Text ''A1'')) ''SalesPrice'' = Text ''25''"
    by code_simp
  note inst = duplicate_catalog_keys [OF c m, of pandas_ex]
  from inst sk
  have codes: "codes_to_update pandas_ex (lookup (normalized catalog_ex))
                (lookup (normalized standardized_ex))
                (intersection (idx (lookup (normalized catalog_ex)))
                   (idx (lookup (normalized standardized_ex)))) = [Text ''A1'']"
    by simp
  from inst run
  have rowsU: "length (rows updated_ex) = length (rows catalog_ex)"
    and upd: "\<And>i. i < length (rows catalog_ex) \<Longrightarrow>
         key_of catalog_ex (rows catalog_ex ! i)
           \<in> set (codes_to_update pandas_ex (lookup (normalized catalog_ex))
                (lookup (normalized standardized_ex))
                (intersection (idx (lookup (normalized catalog_ex)))
                   (idx (lookup (normalized standardized_ex))))) \<Longrightarrow>
         cell_of updated_ex (rows updated_ex ! i) ''SalesPrice''
           = cell_of standardized_ex (last_with standardized_ex (key_of catalog_ex (rows catalog_ex ! i))) ''SalesPrice''"
    by auto
  have "cell_of updated_ex (rows updated_ex ! 0) ''SalesPrice'' = Text ''25''"
    using upd [of 0] by (simp add: len k0 sp codes)
  moreover have "cell_of updated_ex (rows updated_ex ! 2) ''SalesPrice'' = Text ''25''"
    using upd [of 2] by (simp add: len k2 sp codes)
  ultimately show ?thesis
    using c m k0 k2 l sh codes run rowsU len by simp
qed

lemma ne_None: "ne df None x" "ne df x None"
  by (simp_all add: ne_def split: option.split)

lemma null_price_differing:
  assumes kC: "k \<in> set (keys C)" and kM: "k \<in> set (keys M)"
    and null: "price (parse P) C k ''PurchasePrice'' = None \<or> price (parse P) C k ''SalesPrice'' = None \<or>
               price (parse P) M k ''PurchasePrice'' = None \<or> price (parse P) M k ''SalesPrice'' = None"
  shows "differing P M C k"
proof -
  from kC kM obtain i where i: "i < length (shared_keys M C)" and ki: "shared_keys M C ! i = k"
    by (rule shared_key_index)
  have col: "to_num P (last_cells t (shared_keys M C) c) ! i
               = map_option (cast P (dtype P (map (to_num_cell (parse P)) (last_cells t (shared_keys M C) c))))
                   (price (parse P) t k c)" for t c
    using i by (simp add: to_num_nth length_last_cells last_cells_nth ki price_def)
  from null have "differing_flags P M C ! i"
    unfolding differing_flags_nth [OF i] col
    by (auto simp: ne_None)
  then show ?thesis
    using differing_nth [OF i, of P] by (simp add: ki)
qed

text \<open>
  C5. A price cell whose text, after removing commas and trimming, is empty, \<open>nan\<close>,
  \<open>None\<close> or not a number for the parser becomes the null value; the null value differs from
  every number and from the null value. So a key of both tables with a null price on either
  side (the catalog's alone, or both sides) is selected for update, and every catalog row
  bearing it receives the price cells of the standardized row.
\<close>

theorem null_prices_differ:
  "(\<forall>c. (strip (filter (\<lambda>ch. ch \<noteq> CHR '','') (astype_str c)) = '''' \<or>
         strip (filter (\<lambda>ch. ch \<noteq> CHR '','') (astype_str c)) = ''nan'' \<or>
         strip (filter (\<lambda>ch. ch \<noteq> CHR '','') (astype_str c)) = ''None'' \<or>
         parse P (strip (filter (\<lambda>ch. ch \<noteq> CHR '','') (astype_str c))) = None)
        \<longrightarrow> to_num_cell (parse P) c = None \<and>
            (\<forall>series i. i < length series \<and> series ! i = c \<longrightarrow> to_num P series ! i = None)) \<and>
   (\<forall>x. ne (differ P) None x \<and> ne (differ P) x None) \<and>
   (readable C \<and> readable M \<and> k \<in> set (keys C) \<and> k \<in> set (keys M) \<and>
    (price (parse P) C k ''PurchasePrice'' = None \<or> price (parse P) C k ''SalesPrice'' = None \<or>
     price (parse P) M k ''PurchasePrice'' = None \<or> price (parse P) M k ''SalesPrice'' = None)
    \<longrightarrow> k \<in> set (codes_to_update P (lookup (normalized C)) (lookup (normalized M))
                    (intersection (idx (lookup (normalized C))) (idx (lookup (normalized M))))) \<and>
        (\<exists>U N uc nc. compare_and_build_exports P M C = Inr (U, N, uc, nc) \<and>
           (\<forall>i<length (rows C). key_of C (rows C ! i) = k \<longrightarrow>
              cell_of U (rows U ! i) ''PurchasePrice'' = cell_of M (last_with M k) ''PurchasePrice'' \<and>
              cell_of U (rows U ! i) ''SalesPrice'' = cell_of M (last_with M k) ''SalesPrice'')))"
    (is "?A \<and> ?B \<and> ?R")
proof -
  have A: ?A by (auto simp: to_num_cell_def to_num_nth Let_def)
  have B: ?B by (simp add: ne_None)
  have R: ?R
  proof (intro impI, elim conjE)
    assume C: "readable C" and M: "readable M"
      and kC: "k \<in> set (keys C)" and kM: "k \<in> set (keys M)"
      and null: "price (parse P) C k ''PurchasePrice'' = None \<or> price (parse P) C k ''SalesPrice'' = None \<or>
                 price (parse P) M k ''PurchasePrice'' = None \<or> price (parse P) M k ''SalesPrice'' = None"
    have d: "differing P M C k"
      by (rule null_price_differing [OF kC kM null])
    then have sel: "k \<in> set (codes_to_update P (lookup (normalized C)) (lookup (normalized M))
                    (intersection (idx (lookup (normalized C))) (idx (lookup (normalized M)))))"
      by (simp only: mem_codes_to_update [OF C M])
    from compare_rows [OF C M, of P] obtain U N uc nc
      where run: "compare_and_build_exports P M C = Inr (U, N, uc, nc)"
        and cols: "columns U = columns C"
        and rws: "rows U = map (updated_row P M C) (rows C)"
      by blast
    have "cell_of U (rows U ! i) ''PurchasePrice'' = cell_of M (last_with M k) ''PurchasePrice'' \<and>
          cell_of U (rows U ! i) ''SalesPrice'' = cell_of M (last_with M k) ''SalesPrice''"
      if i: "i < length (rows C)" and ki: "key_of C (rows C ! i) = k" for i
    proof -
      from i have r: "rows C ! i \<in> set (rows C)" by simp
      from d ki have di: "differing P M C (key_of C (rows C ! i))" by simp
      from i have ri: "rows U ! i = updated_row P M C (rows C ! i)" by (simp add: rws)
      show ?thesis
        unfolding ri cell_of_columns [OF cols]
        using updated_row_prices [OF C r di] ki by simp
    qed
    with run have "\<exists>U N uc nc. compare_and_build_exports P M C = Inr (U, N, uc, nc) \<and>
           (\<forall>i<length (rows C). key_of C (rows C ! i) = k \<longrightarrow>
              cell_of U (rows U ! i) ''PurchasePrice'' = cell_of M (last_with M k) ''PurchasePrice'' \<and>
              cell_of U (rows U ! i) ''SalesPrice'' = cell_of M (last_with M k) ''SalesPrice'')"
      by blast
    with sel show "k \<in> set (codes_to_update P (lookup (normalized C)) (lookup (normalized M))
                    (intersection (idx (lookup (normalized C))) (idx (lookup (normalized M))))) \<and>
        (\<exists>U N uc nc. compare_and_build_exports P M C = Inr (U, N, uc, nc) \<and>
           (\<forall>i<length (rows C). key_of C (rows C ! i) = k \<longrightarrow>
              cell_of U (rows U ! i) ''PurchasePrice'' = cell_of M (last_with M k) ''PurchasePrice'' \<and>
              cell_of U (rows U ! i) ''SalesPrice'' = cell_of M (last_with M k) ''SalesPrice''))"
      by (rule conjI)
  qed
  from A B R show ?thesis by blast
qed

theorem null_prices_differ_witness:
  "readable catalog_unpriced \<and> readable standardized_a1 \<and>
   Text ''A1'' \<in> set (keys catalog_unpriced) \<and> Text ''A1'' \<in> set (keys standardized_a1) \<and>
   price (parse pandas_ex) catalog_unpriced (Text ''A1'') ''PurchasePrice'' = None \<and>
   price (parse pandas_ex) standardized_a1 (Text ''A1'') ''PurchasePrice'' = Some (IntNum 10) \<and>
   price (parse pandas_ex) catalog_unpriced (Text ''A1'') ''SalesPrice''
     = price (parse pandas_ex) standardized_a1 (Text ''A1'') ''SalesPrice'' \<and>
   to_num_cell (parse pandas_ex) (Text '' n/a '') = None \<and>
   Text ''A1'' \<in> set (codes_to_update pandas_ex (lookup (normalized catalog_unpriced))
                        (lookup (normalized standardized_a1))
                        (intersection (idx (lookup (normalized catalog_unpriced)))
                           (idx (lookup (normalized standardized_a1))))) \<and>
   compare_and_build_exports pandas_ex standardized_a1 catalog_unpriced
     = Inr (updated_a1, empty_dataframe, 1, 0)"
proof -
  have c: "readable catalog_unpriced" by code_simp
  have m: "readable standardized_a1" by code_simp
  have kc: "Text ''A1'' \<in> set (keys catalog_unpriced)" by code_simp
  have km: "Text ''A1'' \<in> set (keys standardized_a1)" by code_simp
  have pc: "price (parse pandas_ex) catalog_unpriced (Text ''A1'') ''PurchasePrice'' = None"
    by code_simp
  have pm: "price (parse pandas_ex) standardized_a1 (Text ''A1'') ''PurchasePrice'' = Some (IntNum 10)"
    by code_simp
  have sp: "price (parse pandas_ex) catalog_unpriced (Text ''A1'') ''SalesPrice''
     = price (parse pandas_ex) standardized_a1 (Text ''A1'') ''SalesPrice''" by code_simp
  have un: "parse pandas_ex (strip (filter (\<lambda>ch. ch \<noteq> CHR '','') (astype_str (Text '' n/a '')))) = None"
    by code_simp
  have run: "compare_and_build_exports pandas_ex standardized_a1 catalog_unpriced
     = Inr (updated_a1, empty_dataframe, 1, 0)" by code_simp
  note inst = null_prices_differ [of pandas_ex catalog_unpriced standardized_a1 "Text ''A1''"]
  from inst un have tc: "to_num_cell (parse pandas_ex) (Text '' n/a '') = None" by blast
  from inst c m kc km pc
  have sel: "Text ''A1'' \<in> set (codes_to_update pandas_ex (lookup (normalized catalog_unpriced))
                        (lookup (normalized standardized_a1))
                        (intersection (idx (lookup (normalized catalog_unpriced)))
                           (idx (lookup (normalized standardized_a1)))))"
    by blast
  from c m kc km pc pm sp tc sel run show ?thesis by blast
qed

section \<open>Reconciling the updated catalog again\<close>

lemma columns_updated_catalog: "columns (updated_catalog P M C) = columns C"
  by (simp add: updated_catalog_def)

lemma rows_updated_catalog:
  "rows (updated_catalog P M C) = map (updated_row P M C) (rows C)"
  by (simp add: updated_catalog_def)

lemma readable_updated_catalog:
  assumes "readable C"
  shows "readable (updated_catalog P M C)"
  using assms
  by (auto simp: readable_def wf_table_def list_all_iff columns_updated_catalog
      rows_updated_catalog length_updated_row)

lemma key_of_updated_row:
  assumes C: "readable C" and r: "r \<in> set (rows C)"
  shows "key_of (updated_catalog P M C) (updated_row P M C r) = key_of C r"
proof -
  have "updated_row P M C r ! get_loc ''ItemCode'' (columns C) = key_of C r"
    using updated_row_key [OF C r, of P M] by (simp add: cell_of_def)
  then show ?thesis
    by (simp add: key_of_def [of "updated_catalog P M C"] columns_updated_catalog)
       (simp add: key_of_def strip_idem)
qed

lemma keys_updated_catalog:
  assumes C: "readable C"
  shows "keys (updated_catalog P M C) = keys C"
  by (simp add: keys_def rows_updated_catalog key_of_updated_row [OF C])

lemma last_with_updated_catalog:
  assumes C: "readable C" and k: "k \<in> set (keys C)"
  shows "last_with (updated_catalog P M C) k = updated_row P M C (last_with C k)"
proof -
  let ?U = "updated_catalog P M C"
  have "filter ((\<lambda>x. key_of ?U x = k) \<circ> updated_row P M C) (rows C)
          = filter (\<lambda>r. key_of C r = k) (rows C)"
    by (rule filter_cong) (simp_all add: key_of_updated_row [OF C])
  then have f: "filter (\<lambda>x. key_of ?U x = k) (rows ?U)
          = map (updated_row P M C) (filter (\<lambda>r. key_of C r = k) (rows C))"
    by (simp add: rows_updated_catalog filter_map)
  from k have "filter (\<lambda>r. key_of C r = k) (rows C) \<noteq> []"
    by (auto simp: keys_def filter_empty_conv)
  then show ?thesis
    by (simp add: last_with_def f last_map)
qed

lemma shared_keys_updated_catalog:
  assumes C: "readable C"
  shows "shared_keys M (updated_catalog P M C) = shared_keys M C"
  by (simp add: shared_keys_def keys_updated_catalog [OF C])

lemma last_cell_updated_catalog:
  assumes C: "readable C" and k: "k \<in> set (keys C)"
    and c: "c = ''PurchasePrice'' \<or> c = ''SalesPrice''"
  shows "cell_of (updated_catalog P M C) (last_with (updated_catalog P M C) k) c
           = (if differing P M C k then cell_of M (last_with M k) c
              else cell_of C (last_with C k) c)"
proof -
  have r: "last_with C k \<in> set (rows C)" by (rule last_with_in_rows [OF k])
  have kr: "key_of C (last_with C k) = k" by (rule key_of_last_with [OF k])
  have eq: "cell_of (updated_catalog P M C) (last_with (updated_catalog P M C) k) c
              = cell_of C (updated_row P M C (last_with C k)) c"
    by (simp add: last_with_updated_catalog [OF C k] cell_of_columns [OF columns_updated_catalog])
  show ?thesis
  proof (cases "differing P M C k")
    case True
    then have dr: "differing P M C (key_of C (last_with C k))" by (simp add: kr)
    from updated_row_prices [OF C r dr] c True show ?thesis
      by (auto simp: eq kr)
  next
    case False
    then have dr: "\<not> differing P M C (key_of C (last_with C k))" by (simp add: kr)
    from updated_row_prices_same [OF C r dr] c False show ?thesis
      by (auto simp: eq)
  qed
qed

lemma not_differing_updated_catalog:
  assumes C: "readable C"
    and parse: "\<forall>k\<in>set (shared_keys M C).
                  price (parse P) M k ''PurchasePrice'' \<noteq> None \<and>
                  price (parse P) M k ''SalesPrice'' \<noteq> None"
    and same: "\<forall>d d' x. \<not> differ P (cast P d x) (cast P d' x)"
    and indep: "\<forall>k\<in>set (shared_keys M C). \<forall>c\<in>{''PurchasePrice'', ''SalesPrice''}.
                  \<forall>x y d1 d2 d1' d2'.
                    price (parse P) C k c = Some x \<and> price (parse P) M k c = Some y \<longrightarrow>
                    differ P (cast P d1 x) (cast P d2 y) = differ P (cast P d1' x) (cast P d2' y)"
  shows "\<not> differing P M (updated_catalog P M C) k"
proof
  let ?U = "updated_catalog P M C"
  let ?ks = "shared_keys M C"
  assume d: "differing P M ?U k"
  have ksU: "shared_keys M ?U = ?ks" by (rule shared_keys_updated_catalog [OF C])
  from d have "k \<in> set (keys ?U)" "k \<in> set (keys M)"
    by (simp_all add: differing_keys)
  then obtain i where iU: "i < length (shared_keys M ?U)" and kiU: "shared_keys M ?U ! i = k"
    by (rule shared_key_index)
  then have i: "i < length ?ks" and ki: "?ks ! i = k" by (simp_all add: ksU)
  from i ki have kin: "k \<in> set ?ks" by auto
  then have kC: "k \<in> set (keys C)" by (simp add: set_shared_keys)
  from d have fU: "differing_flags P M ?U ! i"
    using differing_nth [OF iU, of P] by (simp add: kiU)
  have col: "to_num P (last_cells t ?ks c) ! i
      = map_option (cast P (price_dtype P t ?ks c))
          (to_num_cell (parse P) (cell_of t (last_with t k) c))" for t c
    using i by (simp add: to_num_nth length_last_cells last_cells_nth ki price_dtype_def)
  have cellU: "cell_of ?U (last_with ?U k) c
      = (if differing P M C k then cell_of M (last_with M k) c else cell_of C (last_with C k) c)"
    if "c = ''PurchasePrice'' \<or> c = ''SalesPrice''" for c
    by (rule last_cell_updated_catalog [OF C kC that])
  from fU have flags:
    "ne (differ P)
        (map_option (cast P (price_dtype P ?U ?ks ''PurchasePrice''))
           (to_num_cell (parse P) (cell_of ?U (last_with ?U k) ''PurchasePrice'')))
        (map_option (cast P (price_dtype P M ?ks ''PurchasePrice''))
           (to_num_cell (parse P) (cell_of M (last_with M k) ''PurchasePrice''))) \<or>
     ne (differ P)
        (map_option (cast P (price_dtype P ?U ?ks ''SalesPrice''))
           (to_num_cell (parse P) (cell_of ?U (last_with ?U k) ''SalesPrice'')))
        (map_option (cast P (price_dtype P M ?ks ''SalesPrice''))
           (to_num_cell (parse P) (cell_of M (last_with M k) ''SalesPrice'')))"
    using differing_flags_nth [OF iU, of P] by (simp only: ksU col)
  show False
  proof (cases "differing P M C k")
    case True
    from parse kin obtain x y
      where px: "to_num_cell (parse P) (cell_of M (last_with M k) ''PurchasePrice'') = Some x"
        and py: "to_num_cell (parse P) (cell_of M (last_with M k) ''SalesPrice'') = Some y"
      by (auto simp: price_def)
    from flags True same show False
      by (simp add: cellU px py ne_def)
  next
    case False
    then have "\<not> differing_flags P M C ! i"
      using differing_nth [OF i, of P] by (simp add: ki)
    then have nf: "\<not> ne (differ P)
        (map_option (cast P (price_dtype P C ?ks c))
           (to_num_cell (parse P) (cell_of C (last_with C k) c)))
        (map_option (cast P (price_dtype P M ?ks c))
           (to_num_cell (parse P) (cell_of M (last_with M k) c)))"
      if "c = ''PurchasePrice'' \<or> c = ''SalesPrice''" for c
      using that by (auto simp only: differing_flags_nth [OF i] col)
    have keep: "\<not> ne (differ P)
        (map_option (cast P (price_dtype P ?U ?ks c))
           (to_num_cell (parse P) (cell_of C (last_with C k) c)))
        (map_option (cast P (price_dtype P M ?ks c))
           (to_num_cell (parse P) (cell_of M (last_with M k) c)))"
      if c: "c = ''PurchasePrice'' \<or> c = ''SalesPrice''" for c
    proof -
      from nf [OF c] obtain x y
        where x: "to_num_cell (parse P) (cell_of C (last_with C k) c) = Some x"
          and y: "to_num_cell (parse P) (cell_of M (last_with M k) c) = Some y"
          and nd: "\<not> differ P (cast P (price_dtype P C ?ks c) x) (cast P (price_dtype P M ?ks c) y)"
        by (auto simp: ne_def split: option.splits)
      from indep kin c x y
      have "differ P (cast P (price_dtype P ?U ?ks c) x) (cast P (price_dtype P M ?ks c) y)
              = differ P (cast P (price_dtype P C ?ks c) x) (cast P (price_dtype P M ?ks c) y)"
        unfolding price_def by blast
      with nd show ?thesis by (simp add: x y ne_def)
    qed
    from flags False keep show False
      by (simp add: cellU)
  qed
qed

lemma updated_row_fixed:
  assumes C: "readable C" and r: "r \<in> set (rows C)"
    and nd: "\<not> differing P M (updated_catalog P M C) (key_of C r)"
  shows "updated_row P M (updated_catalog P M C) (updated_row P M C r) = updated_row P M C r"
proof -
  let ?U = "updated_catalog P M C"
  have k: "key_of ?U (updated_row P M C r) = key_of C r"
    by (rule key_of_updated_row [OF C r])
  have cellk: "updated_row P M C r ! get_loc ''ItemCode'' (columns C) = key_of C r"
    using updated_row_key [OF C r, of P M] by (simp add: cell_of_def)
  have "updated_row P M ?U (updated_row P M C r)
          = (updated_row P M C r)[get_loc ''ItemCode'' (columns ?U) := key_of ?U (updated_row P M C r)]"
    using nd by (intro updated_row_same) (simp add: k)
  also have "\<dots> = (updated_row P M C r)[get_loc ''ItemCode'' (columns C) := key_of C r]"
    by (simp add: k columns_updated_catalog)
  also have "\<dots> = updated_row P M C r"
    using cellk by (metis list_update_id)
  finally show ?thesis .
qed

lemma difference_set_cong: "set ys = set zs \<Longrightarrow> difference xs ys = difference xs zs"
  by (simp add: difference_def)

lemma second_new_codes:
  assumes C: "readable C"
  shows "difference (idx (lookup (normalized M))) (idx (lookup (normalized (updated_catalog P M C))))
           = difference (idx (lookup (normalized M))) (idx (lookup (normalized C)))"
proof -
  have U: "readable (updated_catalog P M C)" by (rule readable_updated_catalog [OF C])
  have "set (idx (lookup (normalized (updated_catalog P M C)))) = set (idx (lookup (normalized C)))"
    using readable_cols(1,2) [OF U] readable_cols(1,2) [OF C]
    by (simp add: set_idx_lookup keys_updated_catalog [OF C])
  then show ?thesis by (rule difference_set_cong)
qed

text \<open>
  C2, as stated: a second run on the updated catalog yields \<open>updatedCount = 0\<close> and
  \<open>newCount = 0\<close>. This fails. New keys go to the new-items table and never into the
  catalog, so the second run counts them again; and a shared key whose standardized price
  is null differs on every run. Here the standardized table has the shared key \<open>A1\<close> with
  an empty purchase price and the new key \<open>N1\<close>, and the second run yields 1 and 1.
\<close>

theorem second_run_counterexample:
  "second_run pandas_ex standardized_blank_price catalog_a1
     = Inr (updated_blank_price, new_items_ex, 1, 1)"
  by code_simp

text \<open>
  C2, amended. A second run on the updated catalog of a first run, against the same
  standardized table, always returns the new-items table and the \<open>newCount\<close> of the first
  run. It returns the same updated catalog and \<open>updatedCount = 0\<close> when both standardized
  prices of every key of both tables parse to a number and whether pandas finds a catalog
  price of a shared key different from its standardized price does not depend on the dtypes
  of the two columns (a number never differing from itself). The condition on the dtypes is
  met by integers below \<open>2^53\<close> and by decimals; without it an integer beyond \<open>2^53\<close> that a
  \<open>float64\<close> column rounded in the first run can differ in the second, when the update has
  made the column \<open>int64\<close>.
\<close>

theorem second_run_counts:
  assumes C: "readable C" and M: "readable M"
    and first: "compare_and_build_exports P M C = Inr (U, N, uc, nc)"
  shows "(\<exists>U' uc'. second_run P M C = Inr (U', N, uc', nc)) \<and>
     ((\<forall>k\<in>set (shared_keys M C).
          price (parse P) M k ''PurchasePrice'' \<noteq> None \<and>
          price (parse P) M k ''SalesPrice'' \<noteq> None) \<and>
      (\<forall>d d' x. \<not> differ P (cast P d x) (cast P d' x)) \<and>
      (\<forall>k\<in>set (shared_keys M C). \<forall>c\<in>{''PurchasePrice'', ''SalesPrice''}.
          \<forall>x y d1 d2 d1' d2'.
            price (parse P) C k c = Some x \<and> price (parse P) M k c = Some y \<longrightarrow>
            differ P (cast P d1 x) (cast P d2 y) = differ P (cast P d1' x) (cast P d2' y))
      \<longrightarrow> second_run P M C = Inr (U, N, 0, nc))"
proof -
  let ?U = "updated_catalog P M C"
  let ?N = "\<lambda>C. if difference (idx (lookup (normalized M))) (idx (lookup (normalized C))) \<noteq> []
           then new_items (lookup (normalized M))
                  (difference (idx (lookup (normalized M))) (idx (lookup (normalized C))))
           else empty_dataframe"
  have rU: "readable ?U" by (rule readable_updated_catalog [OF C])
  have one: "compare_and_build_exports P M C
     = Inr (?U, ?N C, card {k. differing P M C k}, card (set (keys M) - set (keys C)))"
    using compare_result [OF C M, of P] by (simp add: updated_catalog_def)
  with first have U: "U = ?U" and N: "N = ?N C" and nc: "nc = card (set (keys M) - set (keys C))"
    by simp_all
  have NU: "?N ?U = ?N C"
    by (simp only: second_new_codes [OF C])
  have two: "compare_and_build_exports P M ?U
     = Inr (updated_catalog P M ?U, ?N C, card {k. differing P M ?U k},
            card (set (keys M) - set (keys C)))"
    using compare_result [OF rU M, of P]
    by (simp only: NU keys_updated_catalog [OF C]) (simp add: updated_catalog_def)
  have sr: "second_run P M C = compare_and_build_exports P M ?U"
    by (simp add: second_run_def one)
  have always: "\<exists>U' uc'. second_run P M C = Inr (U', N, uc', nc)"
    unfolding sr two N nc by blast
  have fixed: "second_run P M C = Inr (U, N, 0, nc)"
    if parse: "\<forall>k\<in>set (shared_keys M C).
          price (parse P) M k ''PurchasePrice'' \<noteq> None \<and>
          price (parse P) M k ''SalesPrice'' \<noteq> None"
      and same: "\<forall>d d' x. \<not> differ P (cast P d x) (cast P d' x)"
      and indep: "\<forall>k\<in>set (shared_keys M C). \<forall>c\<in>{''PurchasePrice'', ''SalesPrice''}.
          \<forall>x y d1 d2 d1' d2'.
            price (parse P) C k c = Some x \<and> price (parse P) M k c = Some y \<longrightarrow>
            differ P (cast P d1 x) (cast P d2 y) = differ P (cast P d1' x) (cast P d2' y)"
  proof -
    have nd: "\<not> differing P M ?U k" for k
      by (rule not_differing_updated_catalog [OF C parse same indep])
    have "map (updated_row P M ?U) (rows ?U) = rows ?U"
      unfolding rows_updated_catalog map_map comp_def
      by (rule map_cong) (simp_all add: updated_row_fixed [OF C _ nd])
    then have fx: "updated_catalog P M ?U = ?U"
      by (simp add: updated_catalog_def [of P M ?U] columns_updated_catalog)
    have zero: "card {k. differing P M ?U k} = 0"
      using nd by simp
    show ?thesis
      unfolding sr two
      by (simp only: fx zero U N nc)
  qed
  from always fixed show ?thesis by blast
qed

lemma pandas_ex_same: "\<not> differ pandas_ex (cast pandas_ex d x) (cast pandas_ex d' x)"
  by (cases x) (simp_all add: pandas_ex_def values_differ_def cast_to_def)

lemma pandas_ex_differ:
  "differ pandas_ex (cast pandas_ex d x) (cast pandas_ex d' y) \<longleftrightarrow> value_of x \<noteq> value_of y"
  by (simp add: pandas_ex_def values_differ_def cast_to_def)

theorem second_run_counts_witness:
  "readable catalog_ex \<and> readable standardized_ex \<and>
   compare_and_build_exports pandas_ex standardized_ex catalog_ex
     = Inr (updated_ex, new_items_ex, 1, 1) \<and>
   list_all (\<lambda>k. price (parse pandas_ex) standardized_ex k ''PurchasePrice'' \<noteq> None \<and>
                  price (parse pandas_ex) standardized_ex k ''SalesPrice'' \<noteq> None)
     (shared_keys standardized_ex catalog_ex) \<and>
   second_run pandas_ex standardized_ex catalog_ex = Inr (updated_ex, new_items_ex, 0, 1)"
proof -
  have c: "readable catalog_ex" by code_simp
  have m: "readable standardized_ex" by code_simp
  have run: "compare_and_build_exports pandas_ex standardized_ex catalog_ex
               = Inr (updated_ex, new_items_ex, 1, 1)"
    by code_simp
  have p: "list_all (\<lambda>k. price (parse pandas_ex) standardized_ex k ''PurchasePrice'' \<noteq> None \<and>
                  price (parse pandas_ex) standardized_ex k ''SalesPrice'' \<noteq> None)
     (shared_keys standardized_ex catalog_ex)"
    by code_simp
  then have p': "\<forall>k\<in>set (shared_keys standardized_ex catalog_ex).
                  price (parse pandas_ex) standardized_ex k ''PurchasePrice'' \<noteq> None \<and>
                  price (parse pandas_ex) standardized_ex k ''SalesPrice'' \<noteq> None"
    by (simp only: list_all_iff)
  have s: "\<forall>d d' x. \<not> differ pandas_ex (cast pandas_ex d x) (cast pandas_ex d' x)"
    by (simp add: pandas_ex_same)
  have i: "\<forall>k\<in>set (shared_keys standardized_ex catalog_ex). \<forall>c\<in>{''PurchasePrice'', ''SalesPrice''}.
          \<forall>x y d1 d2 d1' d2'.
            price (parse pandas_ex) catalog_ex k c = Some x \<and>
            price (parse pandas_ex) standardized_ex k c = Some y \<longrightarrow>
            differ pandas_ex (cast pandas_ex d1 x) (cast pandas_ex d2 y)
              = differ pandas_ex (cast pandas_ex d1' x) (cast pandas_ex d2' y)"
    by (simp only: pandas_ex_differ) simp
  from second_run_counts [OF c m run] p' s i
  have "second_run pandas_ex standardized_ex catalog_ex = Inr (updated_ex, new_items_ex, 0, 1)"
    by blast
  with c m run p show ?thesis by blast
qed

section \<open>build_df_mapped\<close>

lemma get_loc_itemcode_standard: "get_loc ''ItemCode'' STANDARD_HEADERS = 1"
  by (simp add: STANDARD_HEADERS_def)

lemma columns_assembled: "columns (assembled df_source out loc dt) = STANDARD_HEADERS"
  by (simp add: assembled_def assemble_def Let_def)

lemma wf_assembled: "wf_table (assembled df_source out loc dt)"
  by (simp add: wf_table_def list_all_iff assembled_def assemble_def Let_def)
     (simp add: STANDARD_HEADERS_def)

lemma itemcode_assembled: "''ItemCode'' \<in> set (columns (assembled df_source out loc dt))"
  by (simp add: columns_assembled STANDARD_HEADERS_def)

lemma build_df_mapped_unfold:
  assumes "build_out df_source mapping STANDARD_HEADERS = Inr out"
  shows "build_df_mapped df_source mapping loc dt
           = Inr (drop_duplicates (drop_blank (normalized (assembled df_source out loc dt))) ''ItemCode'')"
  using assms by (simp add: build_df_mapped_def Let_def normalized_def)

lemma columns_deduplicated:
  "columns (drop_duplicates (drop_blank t) c) = columns t"
  by (simp add: drop_duplicates_def drop_blank_def)

lemma rows_deduplicated:
  "rows (drop_duplicates (drop_blank t) ''ItemCode'') =
     keep_last (get_loc ''ItemCode'' (columns t))
       (filter (\<lambda>r. strip (astype_str (r ! get_loc ''ItemCode'' (columns t))) \<noteq> '''') (rows t))"
  by (simp add: drop_duplicates_def drop_blank_def)

lemma key_cell_of_normalized_row:
  assumes wf: "wf_table t" and ic: "''ItemCode'' \<in> set (columns t)"
    and r: "r \<in> set (rows (normalized t))"
  shows "Text (strip (astype_str (r ! get_loc ''ItemCode'' (columns t))))
           = r ! get_loc ''ItemCode'' (columns t)"
proof -
  from r obtain r0 where r0: "r0 \<in> set (rows t)"
    and eq: "r = r0[get_loc ''ItemCode'' (columns t) := key_of t r0]"
    by (auto simp: rows_normalized)
  have "r ! get_loc ''ItemCode'' (columns t) = key_of t r0"
    unfolding eq by (rule key_cell_normalized [OF wf ic r0])
  then show ?thesis
    by (simp add: key_of_def strip_idem)
qed

lemma dedup_rows:
  assumes wf: "wf_table t" and ic: "''ItemCode'' \<in> set (columns t)"
    and k: "k \<in> set (keys t)" and nb: "k \<noteq> Text ''''"
  shows "filter (\<lambda>r. key_of (drop_duplicates (drop_blank (normalized t)) ''ItemCode'') r = k)
           (rows (drop_duplicates (drop_blank (normalized t)) ''ItemCode''))
         = [(last_with t k)[get_loc ''ItemCode'' (columns t) := k]]"
proof -
  let ?i = "get_loc ''ItemCode'' (columns t)"
  let ?N = "rows (normalized t)"
  let ?P = "\<lambda>r. strip (astype_str (r ! ?i)) \<noteq> ''''"
  let ?T = "drop_duplicates (drop_blank (normalized t)) ''ItemCode''"
  have rowsT: "rows ?T = keep_last ?i (filter ?P ?N)"
    by (simp add: rows_deduplicated columns_normalized)
  have colsT: "columns ?T = columns t"
    by (simp add: columns_deduplicated columns_normalized)
  have sub: "set (rows ?T) \<subseteq> set ?N"
    unfolding rowsT using keep_last_subset [of ?i "filter ?P ?N"] by auto
  have keyT: "key_of ?T r = r ! ?i" if "r \<in> set (rows ?T)" for r
    using key_cell_of_normalized_row [OF wf ic, of r] that sub
    by (auto simp: key_of_def colsT)
  have f1: "filter (\<lambda>r. key_of ?T r = k) (rows ?T) = filter (\<lambda>r. r ! ?i = k) (rows ?T)"
    by (rule filter_cong) (simp_all add: keyT)
  have blank: "?P r" if "r \<in> set ?N" "r ! ?i = k" for r
    using key_cell_of_normalized_row [OF wf ic that(1)] that(2) nb by auto
  have f2: "filter (\<lambda>r. r ! ?i = k) (filter ?P ?N) = filter (\<lambda>r. r ! ?i = k) ?N"
    unfolding filter_filter by (rule filter_cong) (auto simp: blank)
  from k have "filter (\<lambda>r. key_of t r = k) (rows t) \<noteq> []"
    by (auto simp: keys_def filter_empty_conv)
  then have "filter (\<lambda>r. r ! ?i = k) ?N \<noteq> []"
    by (simp add: filter_key_normalized [OF wf ic])
  then have "filter (\<lambda>r. r ! ?i = k) (filter ?P ?N) \<noteq> []"
    unfolding f2 .
  then have kin: "k \<in> (\<lambda>r. r ! ?i) ` set (filter ?P ?N)"
    by (auto simp: filter_empty_conv)
  have "filter (\<lambda>r. r ! ?i = k) (rows ?T) = [last (filter (\<lambda>r. r ! ?i = k) (filter ?P ?N))]"
    unfolding rowsT by (rule filter_keep_last [OF kin])
  also have "\<dots> = [last (filter (\<lambda>r. r ! ?i = k) ?N)]"
    by (simp only: f2)
  also have "\<dots> = [(last_with t k)[?i := k]]"
    by (simp only: last_filter_normalized [OF wf ic k])
  finally show ?thesis
    by (simp only: f1)
qed

lemma dedup_subseq:
  "subseq (rows (drop_duplicates (drop_blank t) ''ItemCode'')) (rows t)"
proof -
  have "subseq (keep_last (get_loc ''ItemCode'' (columns t))
                 (filter (\<lambda>r. strip (astype_str (r ! get_loc ''ItemCode'' (columns t))) \<noteq> '''') (rows t)))
               (filter (\<lambda>r. strip (astype_str (r ! get_loc ''ItemCode'' (columns t))) \<noteq> '''') (rows t))"
    by (rule keep_last_subseq)
  moreover have "subseq (filter (\<lambda>r. strip (astype_str (r ! get_loc ''ItemCode'' (columns t))) \<noteq> '''') (rows t))
                        (rows t)"
    by simp
  ultimately show ?thesis
    unfolding rows_deduplicated by (rule subseq_order.trans)
qed

lemma dedup_keys:
  assumes wf: "wf_table t" and ic: "''ItemCode'' \<in> set (columns t)"
  shows "map (key_of (drop_duplicates (drop_blank (normalized t)) ''ItemCode''))
           (rows (drop_duplicates (drop_blank (normalized t)) ''ItemCode''))
         = filter (\<lambda>k. k \<noteq> Text '''') (remdups (keys t))"
proof -
  let ?i = "get_loc ''ItemCode'' (columns t)"
  let ?N = "rows (normalized t)"
  let ?P = "\<lambda>r. strip (astype_str (r ! ?i)) \<noteq> ''''"
  let ?T = "drop_duplicates (drop_blank (normalized t)) ''ItemCode''"
  have rowsT: "rows ?T = keep_last ?i (filter ?P ?N)"
    by (simp add: rows_deduplicated columns_normalized)
  have colsT: "columns ?T = columns t"
    by (simp add: columns_deduplicated columns_normalized)
  have sub: "set (rows ?T) \<subseteq> set ?N"
    unfolding rowsT using keep_last_subset [of ?i "filter ?P ?N"] by auto
  have keyT: "key_of ?T r = r ! ?i" if "r \<in> set (rows ?T)" for r
    using key_cell_of_normalized_row [OF wf ic, of r] that sub
    by (auto simp: key_of_def colsT)
  have P: "?P r \<longleftrightarrow> r ! ?i \<noteq> Text ''''" if "r \<in> set ?N" for r
    using key_cell_of_normalized_row [OF wf ic that] by (metis cell.inject(1))
  have fP: "filter ?P ?N = filter ((\<lambda>k. k \<noteq> Text '''') \<circ> (\<lambda>r. r ! ?i)) ?N"
    by (rule filter_cong) (simp_all add: P)
  have "map (key_of ?T) (rows ?T) = map (\<lambda>r. r ! ?i) (rows ?T)"
    by (rule map_cong) (simp_all add: keyT)
  also have "\<dots> = remdups (map (\<lambda>r. r ! ?i) (filter ?P ?N))"
    by (simp only: rowsT keep_last_remdups)
  also have "map (\<lambda>r. r ! ?i) (filter ?P ?N) = filter (\<lambda>k. k \<noteq> Text '''') (map (\<lambda>r. r ! ?i) ?N)"
    by (simp only: fP filter_map)
  also have "map (\<lambda>r. r ! ?i) ?N = keys t"
    by (rule key_col_normalized [OF wf ic])
  finally show ?thesis
    by (simp only: remdups_filter)
qed

lemma dedup_no_blank:
  assumes wf: "wf_table t" and ic: "''ItemCode'' \<in> set (columns t)"
  shows "filter (\<lambda>r. key_of (drop_duplicates (drop_blank (normalized t)) ''ItemCode'') r = Text '''')
           (rows (drop_duplicates (drop_blank (normalized t)) ''ItemCode'')) = []"
proof -
  let ?T = "drop_duplicates (drop_blank (normalized t)) ''ItemCode''"
  have "key_of ?T r \<noteq> Text ''''" if "r \<in> set (rows ?T)" for r
  proof -
    from that have "key_of ?T r \<in> set (map (key_of ?T) (rows ?T))" by simp
    then show ?thesis
      unfolding dedup_keys [OF wf ic] by simp
  qed
  then show ?thesis by (simp add: filter_empty_conv)
qed


text \<open>
  C7, as stated: whenever several source rows share a trimmed \<open>ItemCode\<close>, exactly one row
  is retained for that key. This fails for the blank key: rows whose trimmed \<open>ItemCode\<close> is
  empty are dropped before the deduplication. Here the source rows 1 and 3 share the
  trimmed key \<open>""\<close>, and the standardized table retains no row for it.
\<close>

theorem dedup_keep_last_counterexample:
  "build_df_mapped source_ex mapping_ex ''7'' ''now'' = Inr mapped_ex \<and>
   strip (astype_str (cell_of source_ex (rows source_ex ! 1) ''Code'')) = '''' \<and>
   strip (astype_str (cell_of source_ex (rows source_ex ! 3) ''Code'')) = '''' \<and>
   filter (\<lambda>r. key_of mapped_ex r = Text '''') (rows mapped_ex) = []"
  by code_simp

text \<open>
  C7, amended. When the mapped source columns exist, \<open>build_df_mapped\<close> returns a table with
  the columns of \<open>STANDARD_HEADERS\<close>. Its keys are the non-empty trimmed keys of the
  assembled table, each once, in the order of their last occurrence; no row is retained
  for the empty key. For every non-empty trimmed \<open>ItemCode\<close> borne by a row of the assembled
  table, the one row retained is the last row of the assembled table bearing that key, with
  all its cells and the \<open>ItemCode\<close> trimmed. The retained rows are a subsequence of the
  rows of the assembled table with trimmed keys, so they keep their relative order.
\<close>

theorem dedup_keep_last:
  assumes "build_out df_source mapping STANDARD_HEADERS = Inr out"
  shows "\<exists>T. build_df_mapped df_source mapping loc dt = Inr T \<and>
     columns T = STANDARD_HEADERS \<and>
     subseq (rows T) (rows (normalized (assembled df_source out loc dt))) \<and>
     map (key_of T) (rows T)
       = filter (\<lambda>k. k \<noteq> Text '''') (remdups (keys (assembled df_source out loc dt))) \<and>
     filter (\<lambda>r. key_of T r = Text '''') (rows T) = [] \<and>
     (\<forall>k\<in>set (keys (assembled df_source out loc dt)). k \<noteq> Text '''' \<longrightarrow>
        filter (\<lambda>r. key_of T r = k) (rows T)
          = [(last_with (assembled df_source out loc dt) k)
               [get_loc ''ItemCode'' STANDARD_HEADERS := k]])"
proof -
  let ?A = "assembled df_source out loc dt"
  let ?T = "drop_duplicates (drop_blank (normalized ?A)) ''ItemCode''"
  have run: "build_df_mapped df_source mapping loc dt = Inr ?T"
    by (rule build_df_mapped_unfold [OF assms])
  have cols: "columns ?T = STANDARD_HEADERS"
    by (simp add: columns_deduplicated columns_normalized columns_assembled)
  have sub: "subseq (rows ?T) (rows (normalized ?A))"
    by (rule dedup_subseq)
  have ks: "map (key_of ?T) (rows ?T) = filter (\<lambda>k. k \<noteq> Text '''') (remdups (keys ?A))"
    by (rule dedup_keys [OF wf_assembled itemcode_assembled])
  have nb: "filter (\<lambda>r. key_of ?T r = Text '''') (rows ?T) = []"
    by (rule dedup_no_blank [OF wf_assembled itemcode_assembled])
  have one: "\<forall>k\<in>set (keys ?A). k \<noteq> Text '''' \<longrightarrow>
        filter (\<lambda>r. key_of ?T r = k) (rows ?T)
          = [(last_with ?A k)[get_loc ''ItemCode'' STANDARD_HEADERS := k]]"
    using dedup_rows [OF wf_assembled itemcode_assembled, of _ df_source out loc dt]
    by (simp add: columns_assembled)
  from run cols sub ks nb one show ?thesis by blast
qed

theorem dedup_keep_last_witness:
  "build_out source_ex mapping_ex STANDARD_HEADERS
     = Inr [(''Supplier'', replicate 5 (Text '''')),
            (''ItemCode'', col_values source_ex ''Code''),
            (''Description'', col_values source_ex ''Name''),
            (''PurchasePrice'', col_values source_ex ''Cost''),
            (''SalesPrice'', replicate 5 (Text '''')),
            (''SV_ManufacturerId'', replicate 5 (Text '''')),
            (''ListCategory'', replicate 5 (Text ''''))] \<and>
   build_df_mapped source_ex mapping_ex ''7'' ''now'' = Inr mapped_ex \<and>
   map (key_of mapped_ex) (rows mapped_ex) = [Text ''B2'', Text ''A1''] \<and>
   filter (\<lambda>r. key_of mapped_ex r = Text '''') (rows mapped_ex) = [] \<and>
   filter (\<lambda>r. key_of mapped_ex r = Text ''A1'') (rows mapped_ex)
     = [[Text '''', Text ''A1'', Text ''new'', Text ''5'', Text '''', Text '''', Text '''',
         Text ''7'', Text ''now'']]"
proof -
  let ?out = "[(''Supplier'', replicate 5 (Text '''')),
            (''ItemCode'', col_values source_ex ''Code''),
            (''Description'', col_values source_ex ''Name''),
            (''PurchasePrice'', col_values source_ex ''Cost''),
            (''SalesPrice'', replicate 5 (Text '''')),
            (''SV_ManufacturerId'', replicate 5 (Text '''')),
            (''ListCategory'', replicate 5 (Text ''''))]"
  have out: "build_out source_ex mapping_ex STANDARD_HEADERS = Inr ?out"
    by code_simp
  have run: "build_df_mapped source_ex mapping_ex ''7'' ''now'' = Inr mapped_ex"
    by code_simp
  have k: "Text ''A1'' \<in> set (keys (assembled source_ex ?out ''7'' ''now''))"
    by code_simp
  have ks: "filter (\<lambda>k. k \<noteq> Text '''') (remdups (keys (assembled source_ex ?out ''7'' ''now'')))
              = [Text ''B2'', Text ''A1'']"
    by code_simp
  have l: "(last_with (assembled source_ex ?out ''7'' ''now'') (Text ''A1''))
             [get_loc ''ItemCode'' STANDARD_HEADERS := Text ''A1'']
           = [Text '''', Text ''A1'', Text ''new'', Text ''5'', Text '''', Text '''', Text '''',
              Text ''7'', Text ''now'']"
    by code_simp
  from dedup_keep_last [OF out, of "''7''" "''now''"] run k
  have "map (key_of mapped_ex) (rows mapped_ex)
          = filter (\<lambda>k. k \<noteq> Text '''') (remdups (keys (assembled source_ex ?out ''7'' ''now''))) \<and>
        filter (\<lambda>r. key_of mapped_ex r = Text '''') (rows mapped_ex) = [] \<and>
        filter (\<lambda>r. key_of mapped_ex r = Text ''A1'') (rows mapped_ex)
     = [(last_with (assembled source_ex ?out ''7'' ''now'') (Text ''A1''))
             [get_loc ''ItemCode'' STANDARD_HEADERS := Text ''A1'']]"
    by auto
  then have "map (key_of mapped_ex) (rows mapped_ex) = [Text ''B2'', Text ''A1''] \<and>
        filter (\<lambda>r. key_of mapped_ex r = Text '''') (rows mapped_ex) = [] \<and>
        filter (\<lambda>r. key_of mapped_ex r = Text ''A1'') (rows mapped_ex)
     = [[Text '''', Text ''A1'', Text ''new'', Text ''5'', Text '''', Text '''', Text '''',
         Text ''7'', Text ''now'']]"
    unfolding ks l .
  with out run show ?thesis by blast
qed

section \<open>The store model\<close>

lemma update_last_alloc: "(s @ [t])[length s := t'] = s @ [t']"
  by simp

lemma update_last_alloc2: "(s @ [t, u])[Suc (length s) := u'] = s @ [t, u']"
  by (simp add: list_update_append)

lemma nth_alloc_old: "a < length s \<Longrightarrow> (s @ xs) ! a = s ! a"
  by (simp add: nth_append)

lemma nth_alloc2: "(s @ [t, u]) ! Suc (length s) = u"
  by (simp add: nth_append)

text \<open>
  C9. In the store model the caller's two DataFrames are at addresses of the store before the
  call. After any call, every address of that store holds the table it held before (cells,
  column names and row order), whether the call fails or returns; when it returns, the two
  tables it returns are at new addresses, different from each other, and the four results
  are those of the function on values.
\<close>

theorem inputs_not_mutated:
  assumes m: "df_mapped < length s" and c: "df_catalog < length s"
  shows "\<exists>res s'. compare_and_build_exports_st P df_mapped df_catalog s = (res, s') \<and>
     take (length s) s' = s \<and>
     (case res of
        Inl e \<Rightarrow> compare_and_build_exports P (s ! df_mapped) (s ! df_catalog) = Inl e
      | Inr (u, n, uc, nc) \<Rightarrow>
          length s \<le> u \<and> u < length s' \<and> length s \<le> n \<and> n < length s' \<and> u \<noteq> n \<and>
          compare_and_build_exports P (s ! df_mapped) (s ! df_catalog)
            = Inr (s' ! u, s' ! n, uc, nc))"
  using m c
  unfolding compare_and_build_exports_st_def compare_and_build_exports_def alloc_def Let_def
  by (simp add: nth_append list_update_append split: if_splits)

theorem inputs_not_mutated_witness:
  "(0::nat) < length [standardized_ex, catalog_ex] \<and>
   (1::nat) < length [standardized_ex, catalog_ex] \<and>
   fst (compare_and_build_exports_st pandas_ex 0 1 [standardized_ex, catalog_ex])
     = Inr (6, 5, 1, 1) \<and>
   take 2 (snd (compare_and_build_exports_st pandas_ex 0 1 [standardized_ex, catalog_ex]))
     = [standardized_ex, catalog_ex] \<and>
   snd (compare_and_build_exports_st pandas_ex 0 1 [standardized_ex, catalog_ex]) ! 6 = updated_ex \<and>
   snd (compare_and_build_exports_st pandas_ex 0 1 [standardized_ex, catalog_ex]) ! 5 = new_items_ex"
proof -
  let ?s = "[standardized_ex, catalog_ex]"
  have m: "(0::nat) < length ?s" by simp
  have c: "(1::nat) < length ?s" by simp
  have f: "fst (compare_and_build_exports_st pandas_ex 0 1 ?s) = Inr (6, 5, 1, 1)"
    by code_simp
  have run: "compare_and_build_exports pandas_ex standardized_ex catalog_ex
               = Inr (updated_ex, new_items_ex, 1, 1)"
    by code_simp
  from inputs_not_mutated [OF m c, of pandas_ex] obtain res s'
    where st: "compare_and_build_exports_st pandas_ex 0 1 ?s = (res, s')"
      and tk: "take (length ?s) s' = ?s"
      and cs: "case res of
                 Inl e \<Rightarrow> compare_and_build_exports pandas_ex (?s ! 0) (?s ! 1) = Inl e
               | Inr (u, n, uc, nc) \<Rightarrow>
                   length ?s \<le> u \<and> u < length s' \<and> length ?s \<le> n \<and> n < length s' \<and> u \<noteq> n \<and>
                   compare_and_build_exports pandas_ex (?s ! 0) (?s ! 1) = Inr (s' ! u, s' ! n, uc, nc)"
    by blast
  from st f have res: "res = Inr (6, 5, 1, 1)" by simp
  from cs res run have cells: "s' ! 6 = updated_ex" "s' ! 5 = new_items_ex" by simp_all
  from tk have tk2: "take 2 s' = ?s" by (simp add: numeral_2_eq_2)
  from st have sn: "snd (compare_and_build_exports_st pandas_ex 0 1 ?s) = s'" by simp
  show ?thesis
    unfolding sn using m c f cells tk2 by blast
qed

end
